theory Spec2Isabelle
  imports Complex_Main
begin

section \<open>JavaScript values used by the market helper\<close>

text \<open>
  Strings are lists of 8-bit characters. Case folding and the whitespace class are the
  ASCII parts of \<^verbatim>\<open>toLowerCase\<close>, \<^verbatim>\<open>trim\<close> and the regular expression class
  \<^verbatim>\<open>\s\<close>. Numbers are real numbers together with \<^verbatim>\<open>NaN\<close>; the rounding of
  IEEE doubles and the infinities are outside the model. \<^verbatim>\<open>null\<close> and
  \<^verbatim>\<open>undefined\<close> are both \<open>None\<close> where the source treats them alike.
\<close>

datatype jsnum = NaN | Num real

fun isNaN :: "jsnum \<Rightarrow> bool" where
  "isNaN NaN = True"
| "isNaN (Num x) = False"

text \<open>\<^verbatim>\<open>a < b\<close> and \<^verbatim>\<open>a > b\<close> on numbers: false as soon as one side is NaN.\<close>

fun js_lt :: "jsnum \<Rightarrow> jsnum \<Rightarrow> bool" where
  "js_lt (Num a) (Num b) = (a < b)"
| "js_lt a b = False"

fun js_gt :: "jsnum \<Rightarrow> jsnum \<Rightarrow> bool" where
  "js_gt (Num a) (Num b) = (a > b)"
| "js_gt a b = False"

definition lower_char :: "char \<Rightarrow> char" where
  "lower_char c =
     (case map_of (zip ''ABCDEFGHIJKLMNOPQRSTUVWXYZ'' ''abcdefghijklmnopqrstuvwxyz'') c of
        Some d \<Rightarrow> d
      | None \<Rightarrow> c)"

definition toLowerCase :: "string \<Rightarrow> string" where
  "toLowerCase s = map lower_char s"

definition is_digit :: "char \<Rightarrow> bool" where
  "is_digit c = (c \<in> set ''0123456789'')"

definition is_space :: "char \<Rightarrow> bool" where
  "is_space c = (c \<in> {CHR '' '', CHR 0x09, CHR 0x0A, CHR 0x0B, CHR 0x0C, CHR 0x0D})"

definition trim :: "string \<Rightarrow> string" where
  "trim s = rev (dropWhile is_space (rev (dropWhile is_space s)))"

definition startsWith :: "string \<Rightarrow> string \<Rightarrow> bool" where
  "startsWith s p = (take (length p) s = p)"

text \<open>\<^verbatim>\<open>s.includes(sub)\<close>: \<open>sub\<close> occurs in \<open>s\<close> at some position.\<close>

fun includesStr :: "string \<Rightarrow> string \<Rightarrow> bool" where
  "includesStr [] sub = (sub = [])"
| "includesStr (c # cs) sub = (startsWith (c # cs) sub \<or> includesStr cs sub)"

text \<open>
  A call into the page surface or the renderer either throws (the message of the error)
  or returns.
\<close>

datatype 'a js_result = Throws string | Returns 'a

section \<open>main.js: the records of one listing\<close>

text \<open>
  What \<^verbatim>\<open>parseAncestor\<close> and \<^verbatim>\<open>parseTrigger\<close> return for one listing, after the
  JSON round trip of the parse script: every field is a string (empty when the markup
  lacks the piece), \<open>attributes\<close> a list of names and \<open>stats\<close> a list of stat lines.
  The field \<open>statValue\<close> is the source's \<^verbatim>\<open>value\<close>.
\<close>

record stat =
  raw :: string
  positive :: bool
  negative :: bool
  statValue :: string

record module =
  name :: string
  category :: string
  socketType :: string
  requiredRank :: string
  price :: string
  platform :: string
  rerollCount :: string
  sellerName :: string
  sellerStatus :: string
  sellerRank :: string
  regDate :: string
  attributes :: "string list"
  stats :: "stat list"

section \<open>main.js: runSearch\<close>

text \<open>
  The result of one parse pass, \<^verbatim>\<open>JSON.parse(resultStr)\<close>. \<open>modules\<close> is \<open>None\<close>
  when the value has no (truthy) \<^verbatim>\<open>modules\<close>; an absent or zero \<^verbatim>\<open>itemCount\<close> is
  \<open>0\<close>, an absent \<^verbatim>\<open>loaderVisible\<close> is \<open>False\<close>, so that \<^verbatim>\<open>null\<close> is the record
  with \<open>None\<close>, \<open>0\<close> and \<open>False\<close>.
\<close>

record 'm parsedResult =
  modules :: "'m list option"
  itemCount :: nat
  loaderVisible :: bool

text \<open>
  What the page surface and the clock do in poll iteration \<open>i\<close>: the outcome of the
  parse pass (\<open>Throws\<close> also when \<^verbatim>\<open>JSON.parse\<close> rejects the output), the value of
  \<^verbatim>\<open>Date.now() - zeroStart\<close> at the zero-result check of that iteration, in
  milliseconds, and the outcome of the scroll injection.
\<close>

record 'm poll =
  parsePass :: "'m parsedResult js_result"
  elapsed :: int
  scroll :: "unit js_result"

text \<open>
  Everything outside \<^verbatim>\<open>runSearch\<close> that it reads: whether \<^verbatim>\<open>searches[id]\<close> exists,
  \<^verbatim>\<open>filters.moduleName\<close>, whether the main window exists and is not destroyed (taken
  as one value for the whole run), the outcomes of the three setup injections, and the
  polls.
\<close>

record 'm search_env =
  entryExists :: bool
  moduleName :: string
  mainAlive :: bool
  stepSelectModuleType :: "unit js_result"
  stepEnterSearch :: "unit js_result"
  stepSelectPlatform :: "unit js_result"
  polls :: "nat \<Rightarrow> 'm poll"

text \<open>The payload of a \<^verbatim>\<open>search-updated\<close> message; \<open>error = None\<close> when it has no error field.\<close>

record 'm snapshot =
  snapData :: "'m list"
  finished :: bool
  error :: "string option"

datatype 'm event = SearchProgress string | SearchUpdated "'m snapshot"

text \<open>
  Which path of \<^verbatim>\<open>runSearch\<close> ended the run. This tag is bookkeeping of the model: it
  names the source branch that was taken and is read by no definition.
\<close>

datatype exit_path =
    NoEntry
  | StableExit
  | CapExit
  | ParseFailure string
  | ZeroTimeout
  | Exception string

text \<open>
  The variables of \<^verbatim>\<open>runSearch\<close> and of the search entry: the locals \<open>seen\<close>,
  \<open>deduped\<close>, \<open>lastCount\<close>, \<open>stable\<close>, \<open>zeroTimeoutTriggered\<close>; the entry's
  \<open>running\<close>, \<open>entryData\<close> (\<^verbatim>\<open>entry.data\<close>) and whether its hidden window has been
  closed; the messages sent to the renderer so far, in order; and the number of parse
  passes injected so far.
\<close>

record 'm ctl =
  seen :: "string set"
  deduped :: "'m list"
  lastCount :: nat
  stable :: nat
  zeroTimeoutTriggered :: bool
  running :: bool
  entryData :: "'m list"
  windowClosed :: bool
  events :: "'m event list"
  passes :: nat

definition maxIterations :: nat where
  "maxIterations = 60"

text \<open>The identity key of line 521: the template of \<open>name\<close>, \<open>price\<close> and \<open>sellerName\<close> joined by \<^verbatim>\<open>|\<close>.\<close>

definition dedupeKey :: "'a module_scheme \<Rightarrow> string" where
  "dedupeKey m = name m @ ''|'' @ price m @ ''|'' @ sellerName m"

definition mergeModule :: "'a module_scheme \<Rightarrow> 'a module_scheme ctl \<Rightarrow> 'a module_scheme ctl" where
  "mergeModule m c =
     (if dedupeKey m \<notin> seen c
      then c\<lparr>seen := insert (dedupeKey m) (seen c), deduped := deduped c @ [m]\<rparr>
      else c)"

fun mergeModules :: "'a module_scheme list \<Rightarrow> 'a module_scheme ctl \<Rightarrow> 'a module_scheme ctl" where
  "mergeModules [] c = c"
| "mergeModules (m # ms) c = mergeModules ms (mergeModule m c)"

text \<open>The name filter applied to the incremental and to the final snapshot.\<close>

definition nameFilter :: "string \<Rightarrow> 'a module_scheme list \<Rightarrow> 'a module_scheme list" where
  "nameFilter mn ds =
     (let mName = toLowerCase (trim mn)
      in if mName \<noteq> []
         then filter (\<lambda>m. name m \<noteq> [] \<and> includesStr (toLowerCase (name m)) mName) ds
         else ds)"

definition send :: "'m event \<Rightarrow> 'm ctl \<Rightarrow> 'm ctl" where
  "send e c = c\<lparr>events := events c @ [e]\<rparr>"

text \<open>
  Lines 519 to 537. The send of line 536 is not guarded: without a live main window
  it throws, after the records have been merged and \<^verbatim>\<open>entry.data\<close> has been set, and
  the error reaches the catch block of \<^verbatim>\<open>runSearch\<close>: the result is then the
  message together with the state at the throw.
\<close>

definition sendFailure :: string where
  "sendFailure = ''Object has been destroyed''"

definition incremental ::
  "'a module_scheme search_env \<Rightarrow> 'a module_scheme parsedResult \<Rightarrow> 'a module_scheme ctl
     \<Rightarrow> (string \<times> 'a module_scheme ctl) + 'a module_scheme ctl" where
  "incremental env pr c =
     (case modules pr of
        None \<Rightarrow> Inr c
      | Some ms \<Rightarrow>
          (let c1 = mergeModules ms c;
               filtered = nameFilter (moduleName env) (deduped c1);
               c2 = c1\<lparr>entryData := filtered\<rparr>
           in if mainAlive env
              then Inr (send (SearchUpdated \<lparr>snapData = filtered, finished = False, error = None\<rparr>) c2)
              else Inl (sendFailure, c2)))"

text \<open>Lines 539 to 545.\<close>

definition updateStability :: "nat \<Rightarrow> 'm ctl \<Rightarrow> 'm ctl" where
  "updateStability count c =
     (if count = lastCount c then c\<lparr>stable := stable c + 1\<rparr>
      else c\<lparr>stable := 0, lastCount := count\<rparr>)"

text \<open>Lines 579 to 595, reached by every \<^verbatim>\<open>break\<close> and by the end of the loop.\<close>

definition finalize ::
  "'a module_scheme search_env \<Rightarrow> exit_path \<Rightarrow> 'a module_scheme ctl
     \<Rightarrow> exit_path \<times> 'a module_scheme ctl" where
  "finalize env how c =
     (let c1 = c\<lparr>entryData := deduped c, running := False\<rparr>
      in (how,
          if mainAlive env
          then send (SearchUpdated
                 \<lparr>snapData = nameFilter (moduleName env) (deduped c), finished = True, error = None\<rparr>) c1
          else c1))"

text \<open>Lines 555 to 569: the zero-result timeout returns from \<^verbatim>\<open>runSearch\<close>.\<close>

definition timeoutPath ::
  "'m search_env \<Rightarrow> 'm ctl \<Rightarrow> exit_path \<times> 'm ctl" where
  "timeoutPath env c =
     (let c1 = c\<lparr>zeroTimeoutTriggered := True, running := False, windowClosed := True\<rparr>
      in (ZeroTimeout,
          if mainAlive env
          then send (SearchUpdated \<lparr>snapData = [], finished = True, error = Some ''timeout''\<rparr>) c1
          else c1))"

text \<open>Lines 596 to 604: the catch block around the whole of \<^verbatim>\<open>runSearch\<close>.\<close>

definition catchPath ::
  "'m search_env \<Rightarrow> string \<Rightarrow> 'm ctl \<Rightarrow> exit_path \<times> 'm ctl" where
  "catchPath env msg c =
     (let c1 = c\<lparr>running := False\<rparr>
      in (Exception msg,
          if mainAlive env
          then send (SearchUpdated \<lparr>snapData = [], finished = True, error = Some msg\<rparr>) c1
          else c1))"

text \<open>
  The loop of lines 508 to 578, from iteration \<open>i\<close> on. The inner catch of lines 513
  to 517 leaves the loop by \<^verbatim>\<open>break\<close>, which leads to the final snapshot.
\<close>

function pollLoop ::
  "'a module_scheme search_env \<Rightarrow> nat \<Rightarrow> 'a module_scheme ctl
     \<Rightarrow> exit_path \<times> 'a module_scheme ctl" where
  "pollLoop env i c =
     (if i < maxIterations then
        (case parsePass (polls env i) of
           Throws msg \<Rightarrow> finalize env (ParseFailure msg) (c\<lparr>passes := passes c + 1\<rparr>)
         | Returns pr \<Rightarrow>
             (case incremental env pr (c\<lparr>passes := passes c + 1\<rparr>) of
                Inl thrown \<Rightarrow> catchPath env (fst thrown) (snd thrown)
              | Inr c2 \<Rightarrow>
                  (let c3 = updateStability (itemCount pr) c2
                   in if stable c3 \<ge> 3 \<and> \<not> loaderVisible pr then finalize env StableExit c3
                      else if \<not> zeroTimeoutTriggered c3 \<and> deduped c3 = []
                                \<and> elapsed (polls env i) > 30000
                      then timeoutPath env c3
                      else (case scroll (polls env i) of
                              Throws msg \<Rightarrow> catchPath env msg c3
                            | Returns u \<Rightarrow> pollLoop env (Suc i) c3))))
      else finalize env CapExit c)"
  by pat_completeness auto
termination
  by (relation "measure (\<lambda>(env, i, c). maxIterations - i)") auto

text \<open>
  The state at the start of \<^verbatim>\<open>runSearch\<close>: the entry is running and has no data.
  Without an entry \<^verbatim>\<open>runSearch\<close> returns at once and nothing changes.
\<close>

definition initial :: "'m ctl" where
  "initial =
     \<lparr>seen = {}, deduped = [], lastCount = 0, stable = 0, zeroTimeoutTriggered = False,
      running = True, entryData = [], windowClosed = False, events = [], passes = 0\<rparr>"

definition progress :: "'m search_env \<Rightarrow> string \<Rightarrow> 'm ctl \<Rightarrow> 'm ctl" where
  "progress env stage c = (if mainAlive env then send (SearchProgress stage) c else c)"

definition runSearch ::
  "'a module_scheme search_env \<Rightarrow> exit_path \<times> 'a module_scheme ctl" where
  "runSearch env =
     (if \<not> entryExists env then (NoEntry, initial)
      else
        (case stepSelectModuleType env of
           Throws msg \<Rightarrow> catchPath env msg initial
         | Returns u1 \<Rightarrow>
             (case stepEnterSearch env of
                Throws msg \<Rightarrow> catchPath env msg initial
              | Returns u2 \<Rightarrow>
                  (let c1 = progress env ''enterName'' initial
                   in case stepSelectPlatform env of
                        Throws msg \<Rightarrow> catchPath env msg c1
                      | Returns u3 \<Rightarrow>
                          pollLoop env 0
                            (progress env ''waiting'' (progress env ''setPlatform'' c1))))))"

subsection \<open>Scripted page surfaces\<close>

text \<open>
  Concrete inputs for the controller: a listing with the given name, price and seller,
  and an environment in which the entry exists, the main window is alive, no name
  filter is set and the three setup injections return, over a scripted sequence of
  polls.
\<close>

definition listing :: "string \<Rightarrow> string \<Rightarrow> string \<Rightarrow> module" where
  "listing n p s =
     \<lparr>name = n, category = ''Ancestor'', socketType = [], requiredRank = [], price = p,
      platform = [], rerollCount = [], sellerName = s, sellerStatus = [], sellerRank = [],
      regDate = [], attributes = [], stats = []\<rparr>"

definition scripted :: "(nat \<Rightarrow> module poll) \<Rightarrow> module search_env" where
  "scripted ps =
     \<lparr>entryExists = True, moduleName = [], mainAlive = True,
      stepSelectModuleType = Returns (), stepEnterSearch = Returns (),
      stepSelectPlatform = Returns (), polls = ps\<rparr>"

definition fiveListings :: "module list" where
  "fiveListings =
     [listing ''a'' ''10'' ''s1'', listing ''b'' ''20'' ''s2'', listing ''c'' ''30'' ''s3'',
      listing ''d'' ''40'' ''s4'', listing ''e'' ''50'' ''s5'']"

text \<open>Every pass sees the same five listings; the loader is visible in the first poll only.\<close>

definition steadyPolls :: "nat \<Rightarrow> module poll" where
  "steadyPolls i =
     \<lparr>parsePass = Returns \<lparr>modules = Some fiveListings, itemCount = 5, loaderVisible = (i = 0)\<rparr>,
      elapsed = 700 * int i, scroll = Returns ()\<rparr>"

text \<open>No listing, loader hidden, and a page so slow that each pass takes twenty seconds.\<close>

definition slowEmptyPolls :: "nat \<Rightarrow> module poll" where
  "slowEmptyPolls i =
     \<lparr>parsePass = Returns \<lparr>modules = Some [], itemCount = 0, loaderVisible = False\<rparr>,
      elapsed = 20000 * int i, scroll = Returns ()\<rparr>"

text \<open>No listing while the loader stays visible; the clock is past thirty seconds from poll 43 on.\<close>

definition loadingPolls :: "nat \<Rightarrow> module poll" where
  "loadingPolls i =
     \<lparr>parsePass = Returns \<lparr>modules = Some [], itemCount = 0, loaderVisible = True\<rparr>,
      elapsed = 700 * int i, scroll = Returns ()\<rparr>"

text \<open>The first parse pass throws.\<close>

definition brokenPolls :: "nat \<Rightarrow> module poll" where
  "brokenPolls i =
     \<lparr>parsePass = Throws ''Unexpected token < in JSON at position 0'', elapsed = 700 * int i,
      scroll = Returns ()\<rparr>"

text \<open>The visible count grows with every poll, so the counts never repeat.\<close>

definition growingPolls :: "nat \<Rightarrow> module poll" where
  "growingPolls i =
     \<lparr>parsePass = Returns \<lparr>modules = Some fiveListings, itemCount = 5 + i, loaderVisible = False\<rparr>,
      elapsed = 700 * int i, scroll = Returns ()\<rparr>"

text \<open>The platform selection of the setup throws.\<close>

definition failingSetup :: "module search_env" where
  "failingSetup = (scripted steadyPolls)\<lparr>stepSelectPlatform := Throws ''Script failed to execute''\<rparr>"

text \<open>One poll succeeds, then the scroll injection of the second one throws.\<close>

definition failingScrollPolls :: "nat \<Rightarrow> module poll" where
  "failingScrollPolls i =
     (steadyPolls i)\<lparr>scroll := (if i = 1 then Throws ''Object has been destroyed'' else Returns ())\<rparr>"

text \<open>One poll succeeds, then the parse pass of the second one throws.\<close>

definition failingParsePolls :: "nat \<Rightarrow> module poll" where
  "failingParsePolls i =
     (if i = 0
      then \<lparr>parsePass =
              Returns \<lparr>modules = Some [listing ''a'' ''10'' ''s1''], itemCount = 1, loaderVisible = True\<rparr>,
            elapsed = 0, scroll = Returns ()\<rparr>
      else \<lparr>parsePass = Throws ''Unexpected end of JSON input'', elapsed = 700 * int i,
            scroll = Returns ()\<rparr>)"

section \<open>helper.js: the age of a listing\<close>

text \<open>
  The value \<^verbatim>\<open>parseFloat\<close> gives a decimal numeral: the digits \<open>ip\<close> before the point
  and the digits \<open>fp\<close> after it (\<open>fp\<close> is empty when there is no fraction).
\<close>

definition digitValue :: "char \<Rightarrow> nat" where
  "digitValue c =
     (case map_of (zip ''0123456789'' [0, 1, 2, 3, 4, 5, 6, 7, 8, 9]) c of
        Some d \<Rightarrow> d
      | None \<Rightarrow> 0)"

definition digitsValue :: "string \<Rightarrow> nat" where
  "digitsValue ds = foldl (\<lambda>n c. 10 * n + digitValue c) 0 ds"

definition decimalValue :: "string \<Rightarrow> string \<Rightarrow> real" where
  "decimalValue ip fp = real (digitsValue ip) + real (digitsValue fp) / 10 ^ length fp"

text \<open>The numeral itself: the digits \<open>ip\<close>, followed by a point and the digits \<open>fp\<close> if there are any.\<close>

definition decimalNumeral :: "string \<Rightarrow> string \<Rightarrow> string" where
  "decimalNumeral ip fp = ip @ (if fp = [] then [] else CHR ''.'' # fp)"

text \<open>
  The regular expression of \<^verbatim>\<open>parseAgeToDays\<close> and \<^verbatim>\<open>parseAgeToHours\<close>,
  \<^verbatim>\<open>/(\d+(?:\.\d+)?)\s*(day|days|hour|hours)/\<close>, tried at the start of \<open>s\<close>. The
  match is unique where it exists: what follows the digits, the fraction and the
  white space is never again a digit or white space, so no shorter choice of the greedy
  parts can succeed. The unit is \<open>DayUnit\<close> when the second group starts with
  \<^verbatim>\<open>day\<close> and \<open>HourUnit\<close> when it starts with \<^verbatim>\<open>hour\<close>.
\<close>

datatype age_unit = DayUnit | HourUnit

definition matchAgeAt :: "string \<Rightarrow> (real \<times> age_unit) option" where
  "matchAgeAt s =
     (let ip = takeWhile is_digit s;
          r1 = dropWhile is_digit s;
          fp = (case r1 of [] \<Rightarrow> [] | c # t \<Rightarrow> if c = CHR ''.'' then takeWhile is_digit t else []);
          r2 = (if fp = [] then r1 else drop (Suc (length fp)) r1);
          r3 = dropWhile is_space r2
      in if ip = [] then None
         else if startsWith r3 ''day'' then Some (decimalValue ip fp, DayUnit)
         else if startsWith r3 ''hour'' then Some (decimalValue ip fp, HourUnit)
         else None)"

text \<open>\<^verbatim>\<open>lower.match(...)\<close>: the leftmost position at which the expression matches.\<close>

fun searchAge :: "string \<Rightarrow> (real \<times> age_unit) option" where
  "searchAge [] = None"
| "searchAge (c # cs) =
     (case matchAgeAt (c # cs) of Some r \<Rightarrow> Some r | None \<Rightarrow> searchAge cs)"

text \<open>Lines 713 to 728. The argument is a string; the empty string is falsy.\<close>

definition parseAgeToDays :: "string \<Rightarrow> real option" where
  "parseAgeToDays str =
     (if str = [] then None
      else (case searchAge (toLowerCase str) of
              None \<Rightarrow> None
            | Some (v, DayUnit) \<Rightarrow> Some v
            | Some (v, HourUnit) \<Rightarrow> Some (v / 24)))"

text \<open>Lines 735 to 751.\<close>

definition parseAgeToHours :: "string \<Rightarrow> real option" where
  "parseAgeToHours str =
     (if str = [] then None
      else (case searchAge (toLowerCase str) of
              None \<Rightarrow> None
            | Some (v, HourUnit) \<Rightarrow> Some v
            | Some (v, DayUnit) \<Rightarrow> Some (v * 24)))"

section \<open>helper.js: the record store of appendModules\<close>

text \<open>
  A stored record is a listing together with its derived fields: \<open>mrVal\<close>,
  \<open>rerollVal\<close>, \<open>ageDays\<close> and \<open>ageHours\<close> are the source's \<^verbatim>\<open>__mrVal\<close>,
  \<^verbatim>\<open>__rerollVal\<close>, \<^verbatim>\<open>__ageDays\<close> and \<^verbatim>\<open>__ageHours\<close>; \<open>attrValues\<close> and
  \<open>triggerValues\<close> are objects, kept as association lists in the order of insertion;
  \<open>triggerValues\<close> is \<open>None\<close> on a record that has no such field.
\<close>

record hmodule = module +
  negAttributes :: "string list"
  attrValues :: "(string \<times> real option) list"
  mrVal :: "int option"
  rerollVal :: "int option"
  ageDays :: "real option"
  ageHours :: "real option"
  triggerValues :: "(string \<times> real option) list option"

text \<open>
  Lines 1526 to 1543: \<^verbatim>\<open>parseInt\<close> of the digits of the string, \<open>None\<close> for
  \<^verbatim>\<open>null\<close>.
\<close>

definition parseDigits :: "string \<Rightarrow> int option" where
  "parseDigits s = (let ds = filter is_digit s in if ds = [] then None else Some (int (digitsValue ds)))"

definition mrValOf :: "string \<Rightarrow> int option" where
  "mrValOf requiredRankStr = (if requiredRankStr \<noteq> [] then parseDigits requiredRankStr else None)"

definition rerollValOf :: "string \<Rightarrow> int option" where
  "rerollValOf rerollCountStr =
     (if rerollCountStr \<noteq> []
      then (let cleaned = trim rerollCountStr
            in if cleaned = ''-'' \<or> cleaned = [] then Some 0 else parseDigits cleaned)
      else None)"

text \<open>
  The fields that \<^verbatim>\<open>appendModules\<close> computes from the stat lines of a record (lines
  1456 to 1522 and 1558 to 1586) are a parameter \<open>d\<close> of the model: they are computed
  for a record that is stored, and no claim depends on how.
\<close>

record stat_fields =
  statNegAttributes :: "string list"
  statAttrValues :: "(string \<times> real option) list"
  statTriggerValues :: "(string \<times> real option) list option"

definition derive :: "(module \<Rightarrow> stat_fields) \<Rightarrow> module \<Rightarrow> hmodule" where
  "derive d m =
     module.extend m
       (hmodule.fields (statNegAttributes (d m)) (statAttrValues (d m))
          (mrValOf (requiredRank m)) (rerollValOf (rerollCount m))
          (parseAgeToDays (regDate m)) (parseAgeToHours (regDate m))
          (statTriggerValues (d m)))"

text \<open>Lines 1450 to 1454 and 1523: one record of \<^verbatim>\<open>newData\<close> against the global \<^verbatim>\<open>modules\<close>.\<close>

definition appendModule :: "(module \<Rightarrow> stat_fields) \<Rightarrow> module \<Rightarrow> hmodule list \<Rightarrow> hmodule list" where
  "appendModule d m store =
     (if name m = [] then store
      else if list_ex (\<lambda>s. name s = name m \<and> price s = price m \<and> sellerName s = sellerName m) store
      then store
      else store @ [derive d m])"

fun appendModules :: "(module \<Rightarrow> stat_fields) \<Rightarrow> module list \<Rightarrow> hmodule list \<Rightarrow> hmodule list" where
  "appendModules d [] store = store"
| "appendModules d (m # ms) store = appendModules d ms (appendModule d m store)"

section \<open>helper.js: the predicate of updateResults\<close>

text \<open>
  A pair of bounds \<^verbatim>\<open>{min, max}\<close>; a bound is \<open>None\<close> when it is \<^verbatim>\<open>null\<close> or
  missing.
\<close>

record minmax =
  rmin :: "jsnum option"
  rmax :: "jsnum option"

text \<open>
  The filter variables of helper.js that \<^verbatim>\<open>updateResults\<close> reads, with the two values
  it takes from the page: the active category buttons and the value of the sort
  selector (\<open>None\<close> when the page has none). \<open>triggerAttrMap\<close> is \<open>None\<close> while it is
  \<^verbatim>\<open>null\<close>.
\<close>

record filters =
  isTriggerMode :: bool
  triggerAttrMap :: "(string \<times> minmax) list option"
  triggerFilterValues :: "(string \<times> minmax) list"
  mrMinVal :: "jsnum option"
  mrMaxVal :: "jsnum option"
  rerollMinVal :: "jsnum option"
  rerollMaxVal :: "jsnum option"
  selectedStatuses :: "string list"
  ageMinVal :: "jsnum option"
  ageMaxVal :: "jsnum option"
  ageHoursMinVal :: "jsnum option"
  ageHoursMaxVal :: "jsnum option"
  selectedNegAttrs :: "string list"
  sellerFilterVal :: string
  selectedModuleNames :: "string list"
  selectedAttrs :: "string list"
  selectedSockets :: "string list"
  selectedPlatforms :: "string list"
  priceMinVal :: "jsnum option"
  priceMaxVal :: "jsnum option"
  selectedAttrRanges :: "(string \<times> minmax) list"
  activeCategories :: "string list"
  sortSelect :: "string option"

text \<open>\<^verbatim>\<open>obj[attr] || {}\<close> on an object of bounds, and \<^verbatim>\<open>obj[attr]\<close> on an object of values.\<close>

definition lookupRange :: "(string \<times> minmax) list \<Rightarrow> string \<Rightarrow> minmax" where
  "lookupRange rs attr =
     (case map_of rs attr of None \<Rightarrow> \<lparr>rmin = None, rmax = None\<rparr> | Some r \<Rightarrow> r)"

definition lookupValue :: "(string \<times> real option) list \<Rightarrow> string \<Rightarrow> real option" where
  "lookupValue vs attr = (case map_of vs attr of None \<Rightarrow> None | Some v \<Rightarrow> v)"

definition catMatch :: "'f filters_scheme \<Rightarrow> 'a hmodule_scheme \<Rightarrow> bool" where
  "catMatch fs m = (activeCategories fs = [] \<or> category m \<in> set (activeCategories fs))"

text \<open>Lines 1011 to 1039: the loop over the selected attributes, from \<open>attr\<close> on.\<close>

fun attrLoop :: "(string \<times> minmax) list \<Rightarrow> 'a hmodule_scheme \<Rightarrow> string list \<Rightarrow> bool" where
  "attrLoop rs m [] = True"
| "attrLoop rs m (attr # rest) =
     (if attr \<notin> set (attributes m) then False
      else
        (let range = lookupRange rs attr;
             val = lookupValue (attrValues m) attr
         in if (case rmin range of
                  None \<Rightarrow> False
                | Some lo \<Rightarrow> \<not> isNaN lo \<and> (case val of None \<Rightarrow> False | Some v \<Rightarrow> js_lt (Num v) lo))
            then False
            else if (case rmax range of
                       None \<Rightarrow> False
                     | Some hi \<Rightarrow> \<not> isNaN hi \<and> (case val of None \<Rightarrow> False | Some v \<Rightarrow> js_gt (Num v) hi))
            then False
            else attrLoop rs m rest))"

definition attrMatch :: "'f filters_scheme \<Rightarrow> 'a hmodule_scheme \<Rightarrow> bool" where
  "attrMatch fs m = attrLoop (selectedAttrRanges fs) m (selectedAttrs fs)"

definition socketMatch :: "'f filters_scheme \<Rightarrow> 'a hmodule_scheme \<Rightarrow> bool" where
  "socketMatch fs m = (selectedSockets fs = [] \<or> socketType m \<in> set (selectedSockets fs))"

definition platformMatch :: "'f filters_scheme \<Rightarrow> 'a hmodule_scheme \<Rightarrow> bool" where
  "platformMatch fs m = (selectedPlatforms fs = [] \<or> platform m \<in> set (selectedPlatforms fs))"

text \<open>
  \<^verbatim>\<open>parseFloat\<close> on a string of digits and points: the longest prefix that is a
  decimal numeral, NaN when there is none.
\<close>

definition parseFloatDigits :: "string \<Rightarrow> jsnum" where
  "parseFloatDigits s =
     (let ip = takeWhile is_digit s;
          r = dropWhile is_digit s;
          fp = (case r of [] \<Rightarrow> [] | c # t \<Rightarrow> if c = CHR ''.'' then takeWhile is_digit t else [])
      in if ip = [] \<and> fp = [] then NaN else Num (decimalValue ip fp))"

definition priceNum :: "string \<Rightarrow> jsnum" where
  "priceNum p = parseFloatDigits (filter (\<lambda>c. is_digit c \<or> c = CHR ''.'') p)"

definition priceMatch :: "'f filters_scheme \<Rightarrow> 'a hmodule_scheme \<Rightarrow> bool" where
  "priceMatch fs m =
     (if \<not> isNaN (priceNum (price m))
      then \<not> (case priceMinVal fs of None \<Rightarrow> False | Some lo \<Rightarrow> js_lt (priceNum (price m)) lo)
           \<and> \<not> (case priceMaxVal fs of None \<Rightarrow> False | Some hi \<Rightarrow> js_gt (priceNum (price m)) hi)
      else True)"

text \<open>
  The shape shared by the rank, reroll and age filters: a bound that is set excludes a
  record whose value is \<^verbatim>\<open>null\<close> or on the wrong side of it.
\<close>

definition boundsMatch :: "jsnum option \<Rightarrow> jsnum option \<Rightarrow> real option \<Rightarrow> bool" where
  "boundsMatch lo hi v =
     (\<not> (case lo of
           None \<Rightarrow> False
         | Some b \<Rightarrow> (case v of None \<Rightarrow> True | Some x \<Rightarrow> js_lt (Num x) b))
      \<and> \<not> (case hi of
             None \<Rightarrow> False
           | Some b \<Rightarrow> (case v of None \<Rightarrow> True | Some x \<Rightarrow> js_gt (Num x) b)))"

definition mrMatch :: "'f filters_scheme \<Rightarrow> 'a hmodule_scheme \<Rightarrow> bool" where
  "mrMatch fs m =
     (if \<not> isTriggerMode fs
      then boundsMatch (mrMinVal fs) (mrMaxVal fs) (map_option real_of_int (mrVal m))
      else True)"

definition rerollMatch :: "'f filters_scheme \<Rightarrow> 'a hmodule_scheme \<Rightarrow> bool" where
  "rerollMatch fs m =
     (if \<not> isTriggerMode fs
      then boundsMatch (rerollMinVal fs) (rerollMaxVal fs) (map_option real_of_int (rerollVal m))
      else True)"

definition statusMatch :: "'f filters_scheme \<Rightarrow> 'a hmodule_scheme \<Rightarrow> bool" where
  "statusMatch fs m =
     (if selectedStatuses fs \<noteq> []
      then list_ex (\<lambda>s. toLowerCase s = toLowerCase (sellerStatus m)) (selectedStatuses fs)
      else True)"

definition ageMatch :: "'f filters_scheme \<Rightarrow> 'a hmodule_scheme \<Rightarrow> bool" where
  "ageMatch fs m = boundsMatch (ageMinVal fs) (ageMaxVal fs) (ageDays m)"

definition ageHoursMatch :: "'f filters_scheme \<Rightarrow> 'a hmodule_scheme \<Rightarrow> bool" where
  "ageHoursMatch fs m = boundsMatch (ageHoursMinVal fs) (ageHoursMaxVal fs) (ageHours m)"

definition sellerMatch :: "'f filters_scheme \<Rightarrow> 'a hmodule_scheme \<Rightarrow> bool" where
  "sellerMatch fs m =
     (if sellerFilterVal fs \<noteq> []
      then includesStr (toLowerCase (sellerName m)) (sellerFilterVal fs)
      else True)"

text \<open>
  Lines 1100 to 1118: the loop over the keys of \<^verbatim>\<open>triggerFilterValues\<close>, from \<open>attr\<close>
  on. \<open>triggerValue\<close> is \<^verbatim>\<open>mod.triggerValues ? mod.triggerValues[attr] : null\<close>.
\<close>

definition triggerValue :: "'a hmodule_scheme \<Rightarrow> string \<Rightarrow> real option" where
  "triggerValue m attr = (case triggerValues m of None \<Rightarrow> None | Some tv \<Rightarrow> lookupValue tv attr)"

fun triggerLoop :: "(string \<times> minmax) list \<Rightarrow> 'a hmodule_scheme \<Rightarrow> string list \<Rightarrow> bool" where
  "triggerLoop tf m [] = True"
| "triggerLoop tf m (attr # rest) =
     (let filters = lookupRange tf attr;
          v = triggerValue m attr
      in if (case rmin filters of
               None \<Rightarrow> False
             | Some lo \<Rightarrow> (case v of None \<Rightarrow> True | Some x \<Rightarrow> js_lt (Num x) lo))
         then False
         else if (case rmax filters of
                    None \<Rightarrow> False
                  | Some hi \<Rightarrow> (case v of None \<Rightarrow> True | Some x \<Rightarrow> js_gt (Num x) hi))
         then False
         else triggerLoop tf m rest)"

definition triggerMatch :: "'f filters_scheme \<Rightarrow> 'a hmodule_scheme \<Rightarrow> bool" where
  "triggerMatch fs m =
     (if isTriggerMode fs \<and> triggerAttrMap fs \<noteq> None
      then triggerLoop (triggerFilterValues fs) m (map fst (triggerFilterValues fs))
      else True)"

definition negFilterMatch :: "'f filters_scheme \<Rightarrow> 'a hmodule_scheme \<Rightarrow> bool" where
  "negFilterMatch fs m = list_all (\<lambda>attr. attr \<notin> set (negAttributes m)) (selectedNegAttrs fs)"

definition moduleMatch :: "'f filters_scheme \<Rightarrow> 'a hmodule_scheme \<Rightarrow> bool" where
  "moduleMatch fs m =
     (if \<not> isTriggerMode fs \<and> selectedModuleNames fs \<noteq> []
      then name m \<in> set (selectedModuleNames fs)
      else True)"

text \<open>Line 1222: the value the filter callback returns for one record.\<close>

definition matchesFilters :: "'f filters_scheme \<Rightarrow> 'a hmodule_scheme \<Rightarrow> bool" where
  "matchesFilters fs m =
     (catMatch fs m \<and> attrMatch fs m \<and> socketMatch fs m \<and> platformMatch fs m \<and> priceMatch fs m
      \<and> mrMatch fs m \<and> rerollMatch fs m \<and> statusMatch fs m \<and> ageMatch fs m \<and> ageHoursMatch fs m
      \<and> triggerMatch fs m \<and> negFilterMatch fs m \<and> sellerMatch fs m \<and> moduleMatch fs m)"

text \<open>
  The list \<^verbatim>\<open>filtered\<close> of \<^verbatim>\<open>updateResults\<close>, before it is sorted: the sort permutes
  it and changes no membership.
\<close>

definition filtered :: "'f filters_scheme \<Rightarrow> 'a hmodule_scheme list \<Rightarrow> 'a hmodule_scheme list" where
  "filtered fs ms = filter (matchesFilters fs) ms"

subsection \<open>Sample records and filter settings\<close>

text \<open>The state of the filter variables when helper.js is loaded, in Ancestor mode.\<close>

definition noFilters :: filters where
  "noFilters =
     \<lparr>isTriggerMode = False, triggerAttrMap = None, triggerFilterValues = [],
      mrMinVal = None, mrMaxVal = None, rerollMinVal = None, rerollMaxVal = None,
      selectedStatuses = [], ageMinVal = None, ageMaxVal = None, ageHoursMinVal = None,
      ageHoursMaxVal = None, selectedNegAttrs = [], sellerFilterVal = [],
      selectedModuleNames = [], selectedAttrs = [], selectedSockets = [],
      selectedPlatforms = [], priceMinVal = None, priceMaxVal = None, selectedAttrRanges = [],
      activeCategories = [], sortSelect = Some ''priceDesc''\<rparr>"

text \<open>The attribute \<^verbatim>\<open>Power\<close> is selected with the range from \<open>lo\<close> to \<open>hi\<close>.\<close>

definition powerBetween :: "real \<Rightarrow> real \<Rightarrow> filters" where
  "powerBetween lo hi =
     noFilters\<lparr>selectedAttrs := [''Power''],
               selectedAttrRanges := [(''Power'', \<lparr>rmin = Some (Num lo), rmax = Some (Num hi)\<rparr>)]\<rparr>"

text \<open>A stored record that has the attribute \<^verbatim>\<open>Power\<close> with the parsed value \<open>v\<close>.\<close>

definition powerRecord :: "real option \<Rightarrow> hmodule" where
  "powerRecord v =
     module.extend ((listing ''Slayer'' ''100'' ''s1'')\<lparr>attributes := [''Power'']\<rparr>)
       (hmodule.fields [] [(''Power'', v)] None None None None None)"

text \<open>
  Trigger mode with built filters and a minimum of \<open>lo\<close> for the attribute
  \<^verbatim>\<open>Range\<close>; the rank and reroll bounds are given.
\<close>

definition triggerSample :: "real \<Rightarrow> jsnum option \<Rightarrow> jsnum option \<Rightarrow> filters" where
  "triggerSample lo mr rr =
     noFilters\<lparr>isTriggerMode := True, triggerAttrMap := Some [],
               triggerFilterValues := [(''Range'', \<lparr>rmin = Some (Num lo), rmax = None\<rparr>)],
               mrMinVal := mr, mrMaxVal := mr, rerollMinVal := rr, rerollMaxVal := rr\<rparr>"

text \<open>A stored trigger record whose value for \<^verbatim>\<open>Range\<close> is \<open>v\<close>.\<close>

definition rangeRecord :: "string \<Rightarrow> real option \<Rightarrow> hmodule" where
  "rangeRecord n v =
     module.extend ((listing n ''100'' ''s1'')\<lparr>category := ''Trigger''\<rparr>)
       (hmodule.fields [] [] None None None None (Some [(''Range'', v)]))"

section \<open>helper.js: the two record stores, side by side\<close>

text \<open>
  The test of line 1453: two records have the same name, price and seller name. The
  controller's store of main.js compares the joined key instead, which is the same for
  two such records.
\<close>

definition sameIdentity :: "'a module_scheme \<Rightarrow> 'b module_scheme \<Rightarrow> bool" where
  "sameIdentity a b = (name a = name b \<and> price a = price b \<and> sellerName a = sellerName b)"

text \<open>
  What holds of \<open>seen\<close> and \<open>deduped\<close> whenever the loop of \<^verbatim>\<open>runSearch\<close> looks at
  them: \<open>seen\<close> holds exactly the keys of the stored records, and no two stored records
  have the same key.
\<close>

definition storeInv :: "'a module_scheme ctl \<Rightarrow> bool" where
  "storeInv c = (seen c = set (map dedupeKey (deduped c)) \<and> distinct (map dedupeKey (deduped c)))"

text \<open>
  The separator of the joined key of line 521 occurs neither in the name nor in the
  price of the record. For two such records the joined keys are the same exactly when
  the names, the prices and the seller names are.
\<close>

definition barFree :: "'a module_scheme \<Rightarrow> bool" where
  "barFree m = (CHR ''|'' \<notin> set (name m) \<and> CHR ''|'' \<notin> set (price m))"

text \<open>Stat lines are ignored: the derived fields of the stat lines are empty.\<close>

definition noStatFields :: "module \<Rightarrow> stat_fields" where
  "noStatFields m = \<lparr>statNegAttributes = [], statAttrValues = [], statTriggerValues = None\<rparr>"

section \<open>helper.js: profileManager\<close>

text \<open>
  The object \<^verbatim>\<open>getState\<close> returns. The keys \<^verbatim>\<open>attributes\<close>, \<^verbatim>\<open>negAttributes\<close> and
  \<^verbatim>\<open>sort\<close> are the fields \<open>attributesSt\<close>, \<open>negAttributesSt\<close> and \<open>sortSt\<close>.
  \<open>triggerFilters\<close> is \<open>None\<close> for \<^verbatim>\<open>null\<close>, and so is \<open>sortSt\<close>.
\<close>

record pstate =
  priceMin :: "jsnum option"
  priceMax :: "jsnum option"
  mrMin :: "jsnum option"
  mrMax :: "jsnum option"
  rerollMin :: "jsnum option"
  rerollMax :: "jsnum option"
  ageMin :: "jsnum option"
  ageMax :: "jsnum option"
  ageHoursMin :: "jsnum option"
  ageHoursMax :: "jsnum option"
  seller :: string
  statuses :: "string list"
  attributesSt :: "string list"
  attributeRanges :: "(string \<times> minmax) list"
  negAttributesSt :: "string list"
  moduleNames :: "string list"
  triggerFilters :: "(string \<times> minmax) list option"
  sortSt :: "string option"

text \<open>
  The page state the profile manager works on: the filter variables, the value of the
  profile selector (empty for \<^verbatim>\<open>No Profile\<close>), the two fields of the manager, the
  profiles of the current mode as \<^verbatim>\<open>loadProfiles\<close> reads them from local storage, in
  the order of their keys, and the \<^verbatim>\<open>disabled\<close> property of the save control.
\<close>

record ui = filters +
  selectedProfile :: string
  currentProfileName :: "string option"
  currentProfileState :: "pstate option"
  profiles :: "(string \<times> pstate) list"
  saveDisabled :: bool

text \<open>Lines 1652 to 1678.\<close>

definition getState :: "'a filters_scheme \<Rightarrow> pstate" where
  "getState fs =
     \<lparr>priceMin = priceMinVal fs, priceMax = priceMaxVal fs,
      mrMin = mrMinVal fs, mrMax = mrMaxVal fs,
      rerollMin = rerollMinVal fs, rerollMax = rerollMaxVal fs,
      ageMin = ageMinVal fs, ageMax = ageMaxVal fs,
      ageHoursMin = ageHoursMinVal fs, ageHoursMax = ageHoursMaxVal fs,
      seller = sellerFilterVal fs,
      statuses = selectedStatuses fs,
      attributesSt = selectedAttrs fs,
      attributeRanges = selectedAttrRanges fs,
      negAttributesSt = selectedNegAttrs fs,
      moduleNames = selectedModuleNames fs,
      triggerFilters = (if isTriggerMode fs then Some (triggerFilterValues fs) else None),
      sortSt = sortSelect fs\<rparr>"

text \<open>
  \<^verbatim>\<open>JSON.stringify\<close> is modelled by the tree of the text it prints, keys in the order
  of insertion: two values have the same JSON text exactly when their trees are equal.
  NaN prints as \<^verbatim>\<open>null\<close>.
\<close>

datatype json = JNull | JNum real | JStr string | JArr "json list" | JObj "(string \<times> json) list"

fun jsonNumber :: "jsnum option \<Rightarrow> json" where
  "jsonNumber None = JNull"
| "jsonNumber (Some NaN) = JNull"
| "jsonNumber (Some (Num x)) = JNum x"

definition jsonRange :: "minmax \<Rightarrow> json" where
  "jsonRange r = JObj [(''min'', jsonNumber (rmin r)), (''max'', jsonNumber (rmax r))]"

definition jsonRanges :: "(string \<times> minmax) list \<Rightarrow> json" where
  "jsonRanges rs = JObj (map (\<lambda>kr. (fst kr, jsonRange (snd kr))) rs)"

definition jsonStrings :: "string list \<Rightarrow> json" where
  "jsonStrings xs = JArr (map JStr xs)"

definition stringifyState :: "pstate \<Rightarrow> json" where
  "stringifyState st =
     JObj [(''priceMin'', jsonNumber (priceMin st)), (''priceMax'', jsonNumber (priceMax st)),
           (''mrMin'', jsonNumber (mrMin st)), (''mrMax'', jsonNumber (mrMax st)),
           (''rerollMin'', jsonNumber (rerollMin st)), (''rerollMax'', jsonNumber (rerollMax st)),
           (''ageMin'', jsonNumber (ageMin st)), (''ageMax'', jsonNumber (ageMax st)),
           (''ageHoursMin'', jsonNumber (ageHoursMin st)),
           (''ageHoursMax'', jsonNumber (ageHoursMax st)),
           (''seller'', JStr (seller st)),
           (''statuses'', jsonStrings (statuses st)),
           (''attributes'', jsonStrings (attributesSt st)),
           (''attributeRanges'', jsonRanges (attributeRanges st)),
           (''negAttributes'', jsonStrings (negAttributesSt st)),
           (''moduleNames'', jsonStrings (moduleNames st)),
           (''triggerFilters'', (case triggerFilters st of None \<Rightarrow> JNull | Some tf \<Rightarrow> jsonRanges tf)),
           (''sort'', (case sortSt st of None \<Rightarrow> JNull | Some v \<Rightarrow> JStr v))]"

text \<open>\<^verbatim>\<open>JSON.stringify(saved)\<close>, where \<^verbatim>\<open>saved\<close> is \<^verbatim>\<open>this.currentProfileState || null\<close>.\<close>

definition stringify :: "pstate option \<Rightarrow> json" where
  "stringify saved = (case saved of None \<Rightarrow> JNull | Some st \<Rightarrow> stringifyState st)"

text \<open>
  What \<^verbatim>\<open>JSON.parse\<close> reads back from the text of a state, as \<^verbatim>\<open>loadProfiles\<close> does
  after \<^verbatim>\<open>saveProfiles\<close>: the same state with \<^verbatim>\<open>null\<close> for every NaN.
\<close>

fun nanToNull :: "jsnum option \<Rightarrow> jsnum option" where
  "nanToNull (Some NaN) = None"
| "nanToNull b = b"

definition roundTripRanges :: "(string \<times> minmax) list \<Rightarrow> (string \<times> minmax) list" where
  "roundTripRanges rs =
     map (\<lambda>kr. (fst kr, \<lparr>rmin = nanToNull (rmin (snd kr)), rmax = nanToNull (rmax (snd kr))\<rparr>)) rs"

definition jsonRoundTrip :: "pstate \<Rightarrow> pstate" where
  "jsonRoundTrip st =
     st\<lparr>priceMin := nanToNull (priceMin st), priceMax := nanToNull (priceMax st),
        mrMin := nanToNull (mrMin st), mrMax := nanToNull (mrMax st),
        rerollMin := nanToNull (rerollMin st), rerollMax := nanToNull (rerollMax st),
        ageMin := nanToNull (ageMin st), ageMax := nanToNull (ageMax st),
        ageHoursMin := nanToNull (ageHoursMin st), ageHoursMax := nanToNull (ageHoursMax st),
        attributeRanges := roundTripRanges (attributeRanges st),
        triggerFilters := map_option roundTripRanges (triggerFilters st)\<rparr>"

text \<open>
  Lines 1680 to 1784. The rank and reroll bounds are restored in Ancestor mode only;
  the trigger filters are rebuilt key by key in Trigger mode and emptied otherwise;
  the sort selector takes the saved value when the page has a selector and the saved
  value is not empty (the selector is taken to offer that value). The call of line 1784
  names \<^verbatim>\<open>updateResults\<close>, which is declared inside \<^verbatim>\<open>initializeUI\<close> (line 999) and
  is not in scope in the profile manager, and no script of the repository defines it
  globally: the call throws a \<^verbatim>\<open>ReferenceError\<close>, and the assignment of line 1786 is
  not reached. \<open>applyState\<close> gives the message and the page state at the throw.
\<close>

definition applyState :: "pstate \<Rightarrow> ui \<Rightarrow> string \<times> ui" where
  "applyState st u =
     (''updateResults is not defined'',
      u\<lparr>priceMinVal := priceMin st, priceMaxVal := priceMax st,
        mrMinVal := (if \<not> isTriggerMode u then mrMin st else mrMinVal u),
        mrMaxVal := (if \<not> isTriggerMode u then mrMax st else mrMaxVal u),
        rerollMinVal := (if \<not> isTriggerMode u then rerollMin st else rerollMinVal u),
        rerollMaxVal := (if \<not> isTriggerMode u then rerollMax st else rerollMaxVal u),
        ageMinVal := ageMin st, ageMaxVal := ageMax st,
        ageHoursMinVal := ageHoursMin st, ageHoursMaxVal := ageHoursMax st,
        sellerFilterVal := seller st,
        selectedStatuses := statuses st,
        selectedAttrs := attributesSt st,
        selectedAttrRanges := attributeRanges st,
        selectedNegAttrs := negAttributesSt st,
        selectedModuleNames := moduleNames st,
        triggerFilterValues :=
          (if isTriggerMode u
           then (case triggerFilters st of
                   None \<Rightarrow> []
                 | Some tf \<Rightarrow>
                     map (\<lambda>attr. (attr, \<lparr>rmin = rmin (lookupRange tf attr),
                                          rmax = rmax (lookupRange tf attr)\<rparr>))
                       (map fst tf))
           else []),
        sortSelect :=
          (case sortSelect u of
             None \<Rightarrow> None
           | Some cur \<Rightarrow> (case sortSt st of
                            None \<Rightarrow> Some cur
                          | Some s \<Rightarrow> if s \<noteq> [] then Some s else Some cur))\<rparr>)"

text \<open>Lines 1789 to 1793.\<close>

definition isCurrentStateDirty :: "ui \<Rightarrow> bool" where
  "isCurrentStateDirty u = (stringifyState (getState u) \<noteq> stringify (currentProfileState u))"

text \<open>Lines 1795 to 1823.\<close>

definition hasAnyFilterSet :: "ui \<Rightarrow> bool" where
  "hasAnyFilterSet u =
     (let state = getState u
      in priceMin state \<noteq> None \<or> priceMax state \<noteq> None
         \<or> (\<not> isTriggerMode u
              \<and> (mrMin state \<noteq> None \<or> mrMax state \<noteq> None
                   \<or> rerollMin state \<noteq> None \<or> rerollMax state \<noteq> None))
         \<or> ageMin state \<noteq> None \<or> ageMax state \<noteq> None
         \<or> ageHoursMin state \<noteq> None \<or> ageHoursMax state \<noteq> None
         \<or> trim (seller state) \<noteq> []
         \<or> statuses state \<noteq> []
         \<or> attributesSt state \<noteq> []
         \<or> negAttributesSt state \<noteq> []
         \<or> moduleNames state \<noteq> []
         \<or> (isTriggerMode u
              \<and> (case triggerFilters state of
                     None \<Rightarrow> False
                   | Some tf \<Rightarrow>
                       list_ex (\<lambda>attr. rmin (lookupRange tf attr) \<noteq> None
                                         \<or> rmax (lookupRange tf attr) \<noteq> None)
                         (map fst tf))))"

text \<open>
  Lines 1825 to 1844, on a page that has the save control: the only place where the
  \<^verbatim>\<open>disabled\<close> property of the control is written. (The first lines show or hide the
  other three buttons.)
\<close>

definition updateButtons :: "ui \<Rightarrow> ui" where
  "updateButtons u =
     (if selectedProfile u \<noteq> []
      then u\<lparr>saveDisabled := \<not> isCurrentStateDirty u\<rparr>
      else u\<lparr>saveDisabled := \<not> hasAnyFilterSet u\<rparr>)"

text \<open>\<^verbatim>\<open>profs[k] = v\<close> on an object: an old key keeps its place, a new key comes last.\<close>

fun assign :: "string \<Rightarrow> 'v \<Rightarrow> (string \<times> 'v) list \<Rightarrow> (string \<times> 'v) list" where
  "assign k v [] = [(k, v)]"
| "assign k v (kv # r) = (if fst kv = k then (k, v) # r else kv # assign k v r)"

text \<open>
  The test \<^verbatim>\<open>if (profs[trimmed])\<close> of line 1918: \<^verbatim>\<open>profs\<close> is the plain object that
  \<^verbatim>\<open>JSON.parse\<close> returns, so the test holds for a stored name (a stored state is an
  object) and also for a name that every object inherits from \<^verbatim>\<open>Object.prototype\<close>.
\<close>

definition inheritedNames :: "string list" where
  "inheritedNames =
     [''constructor'', ''hasOwnProperty'', ''isPrototypeOf'', ''propertyIsEnumerable'',
      ''toLocaleString'', ''toString'', ''valueOf'', ''__proto__'',
      ''__defineGetter__'', ''__defineSetter__'', ''__lookupGetter__'', ''__lookupSetter__'']"

definition truthyProperty :: "(string \<times> 'v) list \<Rightarrow> string \<Rightarrow> bool" where
  "truthyProperty profs k = (map_of profs k \<noteq> None \<or> k \<in> set inheritedNames)"

text \<open>
  Lines 1902 to 1935, the click on the save control. \<open>confirmed\<close> is the answer to the
  question asked when a profile is selected, \<open>answer\<close> what the prompt for a name
  returns when none is (\<open>None\<close> when it is dismissed). What is written to local storage
  is read back by \<^verbatim>\<open>loadProfiles\<close> as \<^verbatim>\<open>JSON.parse\<close> reads it.
\<close>

definition saveClick :: "bool \<Rightarrow> string option \<Rightarrow> ui \<Rightarrow> ui" where
  "saveClick confirmed answer u =
     (let curState = getState u
      in if selectedProfile u \<noteq> []
         then (if confirmed
               then updateButtons
                      (u\<lparr>profiles := assign (selectedProfile u) (jsonRoundTrip curState) (profiles u),
                         currentProfileState := Some curState\<rparr>)
               else u)
         else (case answer of
                 None \<Rightarrow> u
               | Some nm \<Rightarrow>
                   if nm = [] \<or> trim nm = [] then u
                   else (let trimmed = trim nm
                         in if truthyProperty (profiles u) trimmed then u
                            else updateButtons
                                   (u\<lparr>profiles := assign trimmed (jsonRoundTrip curState) (profiles u),
                                      selectedProfile := trimmed,
                                      currentProfileName := Some trimmed,
                                      currentProfileState := Some curState\<rparr>))))"

text \<open>
  Lines 1884 to 1900: the profile selector changes to \<open>nm\<close>, one of its options (the
  empty name, or a name that was stored when the option was made). With a stored name
  the handler ends in the exception of \<^verbatim>\<open>applyState\<close> and the page is left as it was
  at the throw; \<^verbatim>\<open>updateButtons\<close> is called for the empty name only.
\<close>

definition selectProfile :: "string \<Rightarrow> ui \<Rightarrow> ui" where
  "selectProfile nm u =
     (if nm = []
      then updateButtons
             (u\<lparr>selectedProfile := nm, currentProfileName := None, currentProfileState := None\<rparr>)
      else (case map_of (profiles u) nm of
              None \<Rightarrow> u\<lparr>selectedProfile := nm\<rparr>
            | Some st \<Rightarrow>
                snd (applyState st
                  (u\<lparr>selectedProfile := nm, currentProfileName := Some nm,
                     currentProfileState := Some st\<rparr>))))"



section \<open>Properties of the polling loop\<close>

declare pollLoop.simps [simp del]

lemma mergeModules_fields [simp]:
  "passes (mergeModules ms c) = passes c"
  "lastCount (mergeModules ms c) = lastCount c"
  "stable (mergeModules ms c) = stable c"
  "zeroTimeoutTriggered (mergeModules ms c) = zeroTimeoutTriggered c"
  "running (mergeModules ms c) = running c"
  "events (mergeModules ms c) = events c"
  by (induction ms arbitrary: c) (auto simp: mergeModule_def)

lemma mergeModules_nonempty:
  "deduped c \<noteq> [] \<Longrightarrow> deduped (mergeModules ms c) \<noteq> []"
  by (induction ms arbitrary: c) (auto simp: mergeModule_def)

lemma mergeModules_first:
  "seen c = {} \<Longrightarrow> deduped (mergeModules (m # ms) c) \<noteq> []"
  by (simp add: mergeModule_def mergeModules_nonempty)

text \<open>One equation for each way through the body of the loop.\<close>

lemma pollLoop_cap:
  "\<not> i < maxIterations \<Longrightarrow> pollLoop env i c = finalize env CapExit c"
  by (subst pollLoop.simps) simp

lemma pollLoop_parse_throws:
  "i < maxIterations \<Longrightarrow> parsePass (polls env i) = Throws msg \<Longrightarrow>
   pollLoop env i c = finalize env (ParseFailure msg) (c\<lparr>passes := passes c + 1\<rparr>)"
  by (subst pollLoop.simps) simp

lemma pollLoop_send_throws:
  "i < maxIterations \<Longrightarrow> parsePass (polls env i) = Returns pr \<Longrightarrow>
   incremental env pr (c\<lparr>passes := passes c + 1\<rparr>) = Inl (msg, c2) \<Longrightarrow>
   pollLoop env i c = catchPath env msg c2"
  by (subst pollLoop.simps) simp

lemma pollLoop_stable:
  "i < maxIterations \<Longrightarrow> parsePass (polls env i) = Returns pr \<Longrightarrow>
   incremental env pr (c\<lparr>passes := passes c + 1\<rparr>) = Inr c2 \<Longrightarrow>
   c3 = updateStability (itemCount pr) c2 \<Longrightarrow>
   3 \<le> stable c3 \<and> \<not> loaderVisible pr \<Longrightarrow>
   pollLoop env i c = finalize env StableExit c3"
  by (subst pollLoop.simps) (auto simp: Let_def)

lemma pollLoop_timeout:
  "i < maxIterations \<Longrightarrow> parsePass (polls env i) = Returns pr \<Longrightarrow>
   incremental env pr (c\<lparr>passes := passes c + 1\<rparr>) = Inr c2 \<Longrightarrow>
   c3 = updateStability (itemCount pr) c2 \<Longrightarrow>
   \<not> (3 \<le> stable c3 \<and> \<not> loaderVisible pr) \<Longrightarrow>
   \<not> zeroTimeoutTriggered c3 \<and> deduped c3 = [] \<and> 30000 < elapsed (polls env i) \<Longrightarrow>
   pollLoop env i c = timeoutPath env c3"
  by (subst pollLoop.simps) (auto simp: Let_def)

lemma pollLoop_scroll_throws:
  "i < maxIterations \<Longrightarrow> parsePass (polls env i) = Returns pr \<Longrightarrow>
   incremental env pr (c\<lparr>passes := passes c + 1\<rparr>) = Inr c2 \<Longrightarrow>
   c3 = updateStability (itemCount pr) c2 \<Longrightarrow>
   \<not> (3 \<le> stable c3 \<and> \<not> loaderVisible pr) \<Longrightarrow>
   \<not> (\<not> zeroTimeoutTriggered c3 \<and> deduped c3 = [] \<and> 30000 < elapsed (polls env i)) \<Longrightarrow>
   scroll (polls env i) = Throws msg \<Longrightarrow>
   pollLoop env i c = catchPath env msg c3"
  by (subst pollLoop.simps) (auto simp: Let_def)

lemma pollLoop_continue:
  "i < maxIterations \<Longrightarrow> parsePass (polls env i) = Returns pr \<Longrightarrow>
   incremental env pr (c\<lparr>passes := passes c + 1\<rparr>) = Inr c2 \<Longrightarrow>
   c3 = updateStability (itemCount pr) c2 \<Longrightarrow>
   \<not> (3 \<le> stable c3 \<and> \<not> loaderVisible pr) \<Longrightarrow>
   \<not> (\<not> zeroTimeoutTriggered c3 \<and> deduped c3 = [] \<and> 30000 < elapsed (polls env i)) \<Longrightarrow>
   scroll (polls env i) = Returns u \<Longrightarrow>
   pollLoop env i c = pollLoop env (Suc i) c3"
  by (subst pollLoop.simps) (auto simp: Let_def)

lemma pollLoop_exits:
  "(\<exists>how c'. how \<in> {StableExit, CapExit} \<union> range ParseFailure \<and> passes c' \<le> passes c + (maxIterations - i)
        \<and> pollLoop env i c = finalize env how c')
   \<or> (\<exists>c'. passes c' \<le> passes c + (maxIterations - i) \<and> pollLoop env i c = timeoutPath env c')
   \<or> (\<exists>msg c'. passes c' \<le> passes c + (maxIterations - i) \<and> pollLoop env i c = catchPath env msg c')"
  (is "?F env i c \<or> ?T env i c \<or> ?C env i c")
proof (induction env i c rule: pollLoop.induct)
  case (1 env i c)
  show ?case
  proof (cases "i < maxIterations")
    case False
    have "?F env i c"
      using pollLoop_cap [OF False, of env c] by (intro exI [of _ CapExit] exI [of _ c]) auto
    then show ?thesis ..
  next
    case lt: True
    show ?thesis
    proof (cases "parsePass (polls env i)")
      case (Throws msg)
      have "?F env i c"
        using pollLoop_parse_throws [OF lt Throws, of c] lt
        by (intro exI [of _ "ParseFailure msg"] exI [of _ "c\<lparr>passes := passes c + 1\<rparr>"]) auto
      then show ?thesis ..
    next
      case pr: (Returns pr)
      show ?thesis
      proof (cases "incremental env pr (c\<lparr>passes := passes c + 1\<rparr>)")
        case (Inl thrown)
        then have th: "incremental env pr (c\<lparr>passes := passes c + 1\<rparr>) = Inl (fst thrown, snd thrown)"
          by simp
        have "passes (snd thrown) = passes c + 1"
          using Inl by (auto simp: incremental_def Let_def split: option.splits if_splits)
        then have "?C env i c"
          using pollLoop_send_throws [OF lt pr th] lt
          by (intro exI [of _ "fst thrown"] exI [of _ "snd thrown"]) auto
        then show ?thesis by blast
      next
        case c2: (Inr c2)
        define c3 where "c3 = updateStability (itemCount pr) c2"
        have p3: "passes c3 = passes c + 1"
          using c2 by (auto simp: c3_def incremental_def Let_def send_def updateStability_def
              split: option.splits if_splits)
        show ?thesis
        proof (cases "3 \<le> stable c3 \<and> \<not> loaderVisible pr")
          case True
          have "?F env i c"
            using pollLoop_stable [OF lt pr c2 c3_def True] lt p3
            by (intro exI [of _ StableExit] exI [of _ c3]) auto
          then show ?thesis ..
        next
          case nostable: False
          show ?thesis
          proof (cases "\<not> zeroTimeoutTriggered c3 \<and> deduped c3 = [] \<and> 30000 < elapsed (polls env i)")
            case True
            have "?T env i c"
              using pollLoop_timeout [OF lt pr c2 c3_def nostable True] lt p3
              by (intro exI [of _ c3]) auto
            then show ?thesis by blast
          next
            case notimeout: False
            show ?thesis
            proof (cases "scroll (polls env i)")
              case (Throws msg)
              have "?C env i c"
                using pollLoop_scroll_throws [OF lt pr c2 c3_def nostable notimeout Throws] lt p3
                by (intro exI [of _ msg] exI [of _ c3]) auto
              then show ?thesis by blast
            next
              case (Returns u)
              have eq: "pollLoop env i c = pollLoop env (Suc i) c3"
                by (rule pollLoop_continue [OF lt pr c2 c3_def nostable notimeout Returns])
              have b: "passes c3 + (maxIterations - Suc i) = passes c + (maxIterations - i)"
                using lt p3 by simp
              have ih: "?F env (Suc i) c3 \<or> ?T env (Suc i) c3 \<or> ?C env (Suc i) c3"
                by (rule "1.IH" [OF lt pr c2 c3_def nostable notimeout Returns])
              show ?thesis using ih unfolding eq b .
            qed
          qed
        qed
      qed
    qed
  qed
qed

lemma incremental_alive:
  assumes "mainAlive env"
  shows "\<exists>c2. incremental env pr c = Inr c2 \<and> lastCount c2 = lastCount c \<and> stable c2 = stable c
           \<and> zeroTimeoutTriggered c2 = zeroTimeoutTriggered c \<and> passes c2 = passes c
           \<and> (deduped c \<noteq> [] \<longrightarrow> deduped c2 \<noteq> [])
           \<and> (seen c = {} \<and> (\<exists>m ms. modules pr = Some (m # ms)) \<longrightarrow> deduped c2 \<noteq> [])
           \<and> (deduped c = [] \<and> (modules pr = None \<or> modules pr = Some []) \<longrightarrow> deduped c2 = [])"
proof (cases "modules pr")
  case None
  then show ?thesis by (simp add: incremental_def)
next
  case (Some ms)
  then show ?thesis using assms
    by (auto simp: incremental_def Let_def send_def mergeModules_nonempty mergeModules_first
        simp del: mergeModules.simps simp add: mergeModules.simps(1))
qed

lemma updateStability_fields [simp]:
  "passes (updateStability n c) = passes c"
  "deduped (updateStability n c) = deduped c"
  "seen (updateStability n c) = seen c"
  "zeroTimeoutTriggered (updateStability n c) = zeroTimeoutTriggered c"
  "events (updateStability n c) = events c"
  "running (updateStability n c) = running c"
  "stable (updateStability n c) = (if n = lastCount c then stable c + 1 else 0)"
  "lastCount (updateStability n c) = n"
  by (auto simp: updateStability_def)

lemma exit_fields [simp]:
  "fst (finalize env how c) = how"
  "passes (snd (finalize env how c)) = passes c"
  "running (snd (finalize env how c)) = False"
  "deduped (snd (finalize env how c)) = deduped c"
  "fst (timeoutPath env c) = ZeroTimeout"
  "passes (snd (timeoutPath env c)) = passes c"
  "running (snd (timeoutPath env c)) = False"
  "fst (catchPath env msg c) = Exception msg"
  "passes (snd (catchPath env msg c)) = passes c"
  "running (snd (catchPath env msg c)) = False"
  by (simp_all add: finalize_def timeoutPath_def catchPath_def Let_def send_def)

lemma exit_events:
  "mainAlive env \<Longrightarrow> events (snd (finalize env how c)) = events c @
     [SearchUpdated \<lparr>snapData = nameFilter (moduleName env) (deduped c), finished = True, error = None\<rparr>]"
  "mainAlive env \<Longrightarrow> events (snd (timeoutPath env c)) = events c @
     [SearchUpdated \<lparr>snapData = [], finished = True, error = Some ''timeout''\<rparr>]"
  "mainAlive env \<Longrightarrow> events (snd (catchPath env msg c)) = events c @
     [SearchUpdated \<lparr>snapData = [], finished = True, error = Some msg\<rparr>]"
  by (simp_all add: finalize_def timeoutPath_def catchPath_def Let_def send_def)

lemma progress_fields [simp]:
  "passes (progress env stage c) = passes c"
  "seen (progress env stage c) = seen c"
  "deduped (progress env stage c) = deduped c"
  "lastCount (progress env stage c) = lastCount c"
  "stable (progress env stage c) = stable c"
  "zeroTimeoutTriggered (progress env stage c) = zeroTimeoutTriggered c"
  by (simp_all add: progress_def send_def)

lemma initial_fields [simp]:
  "passes initial = 0" "seen initial = {}" "deduped initial = []" "lastCount initial = 0"
  "stable initial = 0" "zeroTimeoutTriggered initial = False"
  by (simp_all add: initial_def)

text \<open>The whole run is one of the three setup failures or the loop from iteration 0.\<close>

lemma runSearch_setup_ok:
  "entryExists env \<Longrightarrow> stepSelectModuleType env = Returns u1 \<Longrightarrow>
   stepEnterSearch env = Returns u2 \<Longrightarrow> stepSelectPlatform env = Returns u3 \<Longrightarrow>
   runSearch env = pollLoop env 0
     (progress env ''waiting'' (progress env ''setPlatform'' (progress env ''enterName'' initial)))"
  by (simp add: runSearch_def Let_def)

lemma runSearch_passes: "passes (snd (runSearch env)) \<le> maxIterations"
proof -
  have a: "passes c = 0 \<Longrightarrow> passes (snd (pollLoop env 0 c)) \<le> maxIterations" for c
    using pollLoop_exits [where i=0 and c=c and env=env] by auto
  have b: "passes (snd (pollLoop env 0
      (progress env ''waiting'' (progress env ''setPlatform'' (progress env ''enterName'' initial)))))
      \<le> maxIterations"
    by (rule a) simp
  show ?thesis using b
    by (auto simp: runSearch_def Let_def split: js_result.splits)
qed

text \<open>
  Claim C9. From any state and any iteration \<open>i\<close>, whatever the page surface returns,
  the loop injects at most \<open>maxIterations - i\<close> further parse passes and ends on one of
  its exits: the stability exit, the iteration cap, a parse failure, the zero-result
  timeout or the catch block; on each of them the entry is marked as not running. A
  whole run of \<^verbatim>\<open>runSearch\<close> therefore makes at most 60 parse passes.
\<close>

theorem polling_loop_bounded:
  "passes (snd (pollLoop env i c)) \<le> passes c + (maxIterations - i)
   \<and> \<not> running (snd (pollLoop env i c))
   \<and> fst (pollLoop env i c) \<in> {StableExit, CapExit, ZeroTimeout} \<union> range ParseFailure \<union> range Exception
   \<and> passes (snd (runSearch env)) \<le> 60"
  using pollLoop_exits [where i=i and c=c and env=env] runSearch_passes [of env]
  by (auto simp: maxIterations_def)

text \<open>One iteration that goes on to the next, and one that takes the stability exit.\<close>

lemma continue_step:
  assumes lt: "i < maxIterations" and alive: "mainAlive env"
    and pr: "parsePass (polls env i) = Returns pr"
    and sc: "scroll (polls env i) = Returns u"
    and ns: "\<not> (3 \<le> (if itemCount pr = lastCount c then stable c + 1 else 0) \<and> \<not> loaderVisible pr)"
    and nt: "deduped c \<noteq> [] \<or> elapsed (polls env i) \<le> 30000
             \<or> (seen c = {} \<and> (\<exists>m ms. modules pr = Some (m # ms)))"
  shows "\<exists>c3. pollLoop env i c = pollLoop env (Suc i) c3
           \<and> lastCount c3 = itemCount pr
           \<and> stable c3 = (if itemCount pr = lastCount c then stable c + 1 else 0)
           \<and> passes c3 = passes c + 1
           \<and> zeroTimeoutTriggered c3 = zeroTimeoutTriggered c
           \<and> (deduped c \<noteq> [] \<or> (seen c = {} \<and> (\<exists>m ms. modules pr = Some (m # ms)))
                \<longrightarrow> deduped c3 \<noteq> [])
           \<and> (deduped c = [] \<and> (modules pr = None \<or> modules pr = Some []) \<longrightarrow> deduped c3 = [])"
proof -
  obtain c2 where c2: "incremental env pr (c\<lparr>passes := passes c + 1\<rparr>) = Inr c2"
    and f: "lastCount c2 = lastCount c" "stable c2 = stable c"
      "zeroTimeoutTriggered c2 = zeroTimeoutTriggered c" "passes c2 = passes c + 1"
      "deduped c \<noteq> [] \<longrightarrow> deduped c2 \<noteq> []"
      "seen c = {} \<and> (\<exists>m ms. modules pr = Some (m # ms)) \<longrightarrow> deduped c2 \<noteq> []"
      "deduped c = [] \<and> (modules pr = None \<or> modules pr = Some []) \<longrightarrow> deduped c2 = []"
    using incremental_alive [OF alive, of pr "c\<lparr>passes := passes c + 1\<rparr>"] by auto
  define c3 where "c3 = updateStability (itemCount pr) c2"
  have ns': "\<not> (3 \<le> stable c3 \<and> \<not> loaderVisible pr)"
    using ns f by (auto simp: c3_def split: if_splits)
  have nt': "\<not> (\<not> zeroTimeoutTriggered c3 \<and> deduped c3 = [] \<and> 30000 < elapsed (polls env i))"
    using nt f by (auto simp: c3_def)
  have "pollLoop env i c = pollLoop env (Suc i) c3"
    by (rule pollLoop_continue [OF lt pr c2 c3_def ns' nt' sc])
  then show ?thesis using f by (intro exI [of _ c3]) (auto simp: c3_def)
qed

lemma stable_step:
  assumes lt: "i < maxIterations" and alive: "mainAlive env"
    and pr: "parsePass (polls env i) = Returns pr"
    and st: "3 \<le> (if itemCount pr = lastCount c then stable c + 1 else 0) \<and> \<not> loaderVisible pr"
  shows "\<exists>c3. pollLoop env i c = finalize env StableExit c3 \<and> passes c3 = passes c + 1"
proof -
  obtain c2 where c2: "incremental env pr (c\<lparr>passes := passes c + 1\<rparr>) = Inr c2"
    and f: "lastCount c2 = lastCount c" "stable c2 = stable c" "passes c2 = passes c + 1"
    using incremental_alive [OF alive, of pr "c\<lparr>passes := passes c + 1\<rparr>"] by auto
  define c3 where "c3 = updateStability (itemCount pr) c2"
  have st': "3 \<le> stable c3 \<and> \<not> loaderVisible pr"
    using st f by (auto simp: c3_def split: if_splits)
  have "pollLoop env i c = finalize env StableExit c3"
    by (rule pollLoop_stable [OF lt pr c2 c3_def st'])
  then show ?thesis using f by (intro exI [of _ c3]) (auto simp: c3_def)
qed

text \<open>
  Claim C1. The setup succeeds, the main window is alive, and the first four parse
  passes return a visible count of 5, the loader being hidden from the second poll on;
  the scroll injections of the first three polls return, and the zero-result timeout
  cannot fire in them (the first pass finds a listing, or the clock is within 30000 ms).
  Then the run makes exactly four parse passes and leaves the loop by the stability
  exit of the fourth; its last message is the final snapshot, without an error.
\<close>

theorem stability_after_fourth_poll:
  assumes steps: "entryExists env" "stepSelectModuleType env = Returns ()"
      "stepEnterSearch env = Returns ()" "stepSelectPlatform env = Returns ()"
    and alive: "mainAlive env"
    and counts: "\<forall>i<4. parsePass (polls env i) = Returns (pr i) \<and> itemCount (pr i) = 5"
    and loader: "\<forall>i<4. 0 < i \<longrightarrow> \<not> loaderVisible (pr i)"
    and scrolls: "\<forall>i<3. scroll (polls env i) = Returns ()"
    and notimeout: "(\<exists>m ms. modules (pr 0) = Some (m # ms)) \<or> (\<forall>i<3. elapsed (polls env i) \<le> 30000)"
  shows "fst (runSearch env) = StableExit \<and> passes (snd (runSearch env)) = 4
         \<and> last (events (snd (runSearch env))) =
             SearchUpdated \<lparr>snapData = nameFilter (moduleName env) (deduped (snd (runSearch env))),
                            finished = True, error = None\<rparr>"
proof -
  define c0 :: "'a module_scheme ctl" where
    "c0 = progress env ''waiting'' (progress env ''setPlatform'' (progress env ''enterName'' initial))"
  have run: "runSearch env = pollLoop env 0 c0"
    unfolding c0_def by (rule runSearch_setup_ok [OF steps])
  have c0: "lastCount c0 = 0" "stable c0 = 0" "passes c0 = 0" "seen c0 = {}" "deduped c0 = []"
    by (simp_all add: c0_def)
  have p: "parsePass (polls env i) = Returns (pr i)" and n: "itemCount (pr i) = 5" if "i < 4" for i
    using counts that by auto
  have s: "scroll (polls env i) = Returns ()" if "i < 3" for i
    using scrolls that by auto
  have lt: "i < maxIterations" if "i < 4" for i
    using that by (simp add: maxIterations_def)
  note c0 = c0 \<open>deduped c0 = []\<close>
  let ?found = "\<exists>m ms. modules (pr 0) = Some (m # ms)"
  have nt: "deduped c \<noteq> [] \<or> elapsed (polls env i) \<le> 30000
        \<or> (seen c = {} \<and> (\<exists>m ms. modules (pr i) = Some (m # ms)))"
    if "i < 3" "?found \<longrightarrow> deduped c \<noteq> [] \<or> (i = 0 \<and> seen c = {})" for i c
    using notimeout that by auto
  \<comment> \<open>poll 1\<close>
  have ns0: "\<not> (3 \<le> (if itemCount (pr 0) = lastCount c0 then stable c0 + 1 else 0)
               \<and> \<not> loaderVisible (pr 0))"
    using c0 n [of "0"] by simp
  have nt0: "deduped c0 \<noteq> [] \<or> elapsed (polls env 0) \<le> 30000
        \<or> (seen c0 = {} \<and> (\<exists>m ms. modules (pr 0) = Some (m # ms)))"
    using nt [of "0" c0] c0 by simp
  have "\<exists>c. pollLoop env 0 c0 = pollLoop env (Suc 0) c \<and> lastCount c = 5
          \<and> stable c = 0 \<and> passes c = 1 \<and> (?found \<longrightarrow> deduped c \<noteq> [])"
    using continue_step [of "0" env "pr 0" "()" c0, OF lt alive p s ns0 nt0]
      c0 n [of "0"] by auto
  then obtain c1 where c1: "pollLoop env 0 c0 = pollLoop env (Suc 0) c1" "lastCount c1 = 5"
      "stable c1 = 0" "passes c1 = 1" "?found \<longrightarrow> deduped c1 \<noteq> []"
    by blast
  \<comment> \<open>poll 2\<close>
  have ns1: "\<not> (3 \<le> (if itemCount (pr (Suc 0)) = lastCount c1 then stable c1 + 1 else 0)
               \<and> \<not> loaderVisible (pr (Suc 0)))"
    using c1 n [of "Suc 0"] by simp
  have nt1: "deduped c1 \<noteq> [] \<or> elapsed (polls env (Suc 0)) \<le> 30000
        \<or> (seen c1 = {} \<and> (\<exists>m ms. modules (pr (Suc 0)) = Some (m # ms)))"
    using nt [of "Suc 0" c1] c1 by simp
  have "\<exists>c. pollLoop env (Suc 0) c1 = pollLoop env (Suc (Suc 0)) c \<and> lastCount c = 5
          \<and> stable c = 1 \<and> passes c = 2 \<and> (?found \<longrightarrow> deduped c \<noteq> [])"
    using continue_step [of "Suc 0" env "pr (Suc 0)" "()" c1, OF lt alive p s ns1 nt1]
      c1 n [of "Suc 0"] by auto
  then obtain c2 where c2: "pollLoop env (Suc 0) c1 = pollLoop env (Suc (Suc 0)) c2" "lastCount c2 = 5"
      "stable c2 = 1" "passes c2 = 2" "?found \<longrightarrow> deduped c2 \<noteq> []"
    by blast
  \<comment> \<open>poll 3\<close>
  have ns2: "\<not> (3 \<le> (if itemCount (pr (Suc (Suc 0))) = lastCount c2 then stable c2 + 1 else 0)
               \<and> \<not> loaderVisible (pr (Suc (Suc 0))))"
    using c2 n [of "Suc (Suc 0)"] by simp
  have nt2: "deduped c2 \<noteq> [] \<or> elapsed (polls env (Suc (Suc 0))) \<le> 30000
        \<or> (seen c2 = {} \<and> (\<exists>m ms. modules (pr (Suc (Suc 0))) = Some (m # ms)))"
    using nt [of "Suc (Suc 0)" c2] c2 by simp
  have "\<exists>c. pollLoop env (Suc (Suc 0)) c2 = pollLoop env (Suc (Suc (Suc 0))) c \<and> lastCount c = 5
          \<and> stable c = 2 \<and> passes c = 3 \<and> (?found \<longrightarrow> deduped c \<noteq> [])"
    using continue_step [of "Suc (Suc 0)" env "pr (Suc (Suc 0))" "()" c2, OF lt alive p s ns2 nt2]
      c2 n [of "Suc (Suc 0)"] by auto
  then obtain c3 where c3: "pollLoop env (Suc (Suc 0)) c2 = pollLoop env (Suc (Suc (Suc 0))) c3" "lastCount c3 = 5"
      "stable c3 = 2" "passes c3 = 3" "?found \<longrightarrow> deduped c3 \<noteq> []"
    by blast
  \<comment> \<open>poll 4: the counter reaches 3 and the loader is hidden\<close>
  have st3: "3 \<le> (if itemCount (pr (Suc (Suc (Suc 0)))) = lastCount c3 then stable c3 + 1 else 0)
               \<and> \<not> loaderVisible (pr (Suc (Suc (Suc 0))))"
    using c3 n [of "Suc (Suc (Suc 0))"] loader by simp
  have "\<exists>c. pollLoop env (Suc (Suc (Suc 0))) c3 = finalize env StableExit c \<and> passes c = 4"
    using stable_step [of "Suc (Suc (Suc 0))" env "pr (Suc (Suc (Suc 0)))" c3, OF lt alive p st3] c3
    by auto
  then obtain c4 where c4: "pollLoop env (Suc (Suc (Suc 0))) c3 = finalize env StableExit c4"
      "passes c4 = 4"
    by blast
  have "runSearch env = finalize env StableExit c4"
    using run c1(1) c2(1) c3(1) c4(1) by simp
  then show ?thesis using c4(2) alive by (simp add: exit_events)
qed

theorem stability_after_fourth_poll_witness:
  "fst (runSearch (scripted steadyPolls)) = StableExit
   \<and> passes (snd (runSearch (scripted steadyPolls))) = 4
   \<and> last (events (snd (runSearch (scripted steadyPolls)))) =
       SearchUpdated \<lparr>snapData = nameFilter (moduleName (scripted steadyPolls))
                         (deduped (snd (runSearch (scripted steadyPolls)))),
                      finished = True, error = None\<rparr>"
  by (rule stability_after_fourth_poll
        [where env = "scripted steadyPolls"
           and pr = "\<lambda>i. \<lparr>modules = Some fiveListings, itemCount = 5, loaderVisible = (i = 0)\<rparr>"])
     (simp_all add: scripted_def steadyPolls_def fiveListings_def)

text \<open>
  Claim C3, as amended. In an iteration whose parse pass returned, that found no
  listing while none had been collected before, that does not take the stability exit
  (the counter is below 3 or the loader is visible) and in which more than 30000 ms
  have passed since polling began, the controller sends the terminal snapshot with
  error \<^verbatim>\<open>timeout\<close>, \<open>finished = True\<close> and no data as its last message, closes the
  hidden window, marks the entry as not running, and injects no further parse pass.
\<close>

theorem zero_result_timeout:
  assumes lt: "i < maxIterations" and alive: "mainAlive env"
    and pr: "parsePass (polls env i) = Returns pr"
    and none: "deduped c = []" "modules pr = None \<or> modules pr = Some []"
    and fresh: "\<not> zeroTimeoutTriggered c"
    and late: "elapsed (polls env i) > 30000"
    and ns: "\<not> (3 \<le> (if itemCount pr = lastCount c then stable c + 1 else 0) \<and> \<not> loaderVisible pr)"
  shows "fst (pollLoop env i c) = ZeroTimeout
         \<and> passes (snd (pollLoop env i c)) = passes c + 1
         \<and> last (events (snd (pollLoop env i c))) =
              SearchUpdated \<lparr>snapData = [], finished = True, error = Some ''timeout''\<rparr>
         \<and> \<not> running (snd (pollLoop env i c))
         \<and> windowClosed (snd (pollLoop env i c))"
proof -
  obtain c2 where c2: "incremental env pr (c\<lparr>passes := passes c + 1\<rparr>) = Inr c2"
    and f: "lastCount c2 = lastCount c" "stable c2 = stable c"
      "zeroTimeoutTriggered c2 = zeroTimeoutTriggered c" "passes c2 = passes c + 1"
      "deduped c2 = []"
    using incremental_alive [OF alive, of pr "c\<lparr>passes := passes c + 1\<rparr>"] none by auto
  define c3 where "c3 = updateStability (itemCount pr) c2"
  have ns': "\<not> (3 \<le> stable c3 \<and> \<not> loaderVisible pr)"
    using ns f by (auto simp: c3_def split: if_splits)
  have t: "\<not> zeroTimeoutTriggered c3 \<and> deduped c3 = [] \<and> 30000 < elapsed (polls env i)"
    using fresh late f by (simp add: c3_def)
  have "pollLoop env i c = timeoutPath env c3"
    by (rule pollLoop_timeout [OF lt pr c2 c3_def ns' t])
  then show ?thesis
    using alive f by (simp add: exit_events c3_def) (simp add: timeoutPath_def Let_def send_def)
qed

text \<open>On the page that keeps loading, the loop goes on while the clock is within the limit.\<close>

lemma loading_prefix:
  assumes "i \<le> 43" and "deduped c = []" and "\<not> zeroTimeoutTriggered c"
  shows "\<exists>c'. pollLoop (scripted loadingPolls) i c = pollLoop (scripted loadingPolls) 43 c'
           \<and> deduped c' = [] \<and> \<not> zeroTimeoutTriggered c' \<and> passes c' = passes c + (43 - i)"
  using assms
proof (induction "43 - i" arbitrary: i c)
  case 0
  then have "i = 43" by simp
  then show ?case using "0.prems" by auto
next
  case (Suc n)
  then have lt: "i < maxIterations" and le: "i \<le> 42" by (simp_all add: maxIterations_def)
  let ?pr = "\<lparr>modules = Some [], itemCount = 0, loaderVisible = True\<rparr> :: module parsedResult"
  have pr: "parsePass (polls (scripted loadingPolls) i) = Returns ?pr"
    and sc: "scroll (polls (scripted loadingPolls) i) = Returns ()"
    and el: "elapsed (polls (scripted loadingPolls) i) \<le> 30000"
    and al: "mainAlive (scripted loadingPolls)"
    using le by (simp_all add: scripted_def loadingPolls_def)
  have ns: "\<not> (3 \<le> (if itemCount ?pr = lastCount c then stable c + 1 else 0) \<and> \<not> loaderVisible ?pr)"
    by simp
  have nt: "deduped c \<noteq> [] \<or> elapsed (polls (scripted loadingPolls) i) \<le> 30000
             \<or> (seen c = {} \<and> (\<exists>m ms. modules ?pr = Some (m # ms)))"
    using el by simp
  obtain c3 where c3: "pollLoop (scripted loadingPolls) i c = pollLoop (scripted loadingPolls) (Suc i) c3"
    "passes c3 = passes c + 1" "zeroTimeoutTriggered c3 = zeroTimeoutTriggered c" "deduped c3 = []"
    using continue_step [OF lt al pr sc ns nt] Suc.prems(2) by auto
  have "\<exists>c'. pollLoop (scripted loadingPolls) (Suc i) c3 = pollLoop (scripted loadingPolls) 43 c'
           \<and> deduped c' = [] \<and> \<not> zeroTimeoutTriggered c' \<and> passes c' = passes c3 + (43 - Suc i)"
    using Suc.hyps(2) le c3 Suc.prems(3) by (intro Suc.hyps(1)) auto
  then show ?case using c3 le by auto
qed

theorem zero_result_timeout_witness:
  "fst (runSearch (scripted loadingPolls)) = ZeroTimeout
   \<and> passes (snd (runSearch (scripted loadingPolls))) = 44
   \<and> last (events (snd (runSearch (scripted loadingPolls)))) =
        SearchUpdated \<lparr>snapData = [], finished = True, error = Some ''timeout''\<rparr>
   \<and> \<not> running (snd (runSearch (scripted loadingPolls)))
   \<and> windowClosed (snd (runSearch (scripted loadingPolls)))"
proof -
  let ?env = "scripted loadingPolls"
  let ?c0 = "progress ?env ''waiting'' (progress ?env ''setPlatform'' (progress ?env ''enterName'' initial))"
  have run: "runSearch ?env = pollLoop ?env 0 ?c0"
    by (rule runSearch_setup_ok) (simp_all add: scripted_def)
  obtain c' where c': "pollLoop ?env 0 ?c0 = pollLoop ?env 43 c'" "deduped c' = []"
    "\<not> zeroTimeoutTriggered c'" "passes c' = 43"
    using loading_prefix [of 0 ?c0] by auto
  have "fst (pollLoop ?env 43 c') = ZeroTimeout
         \<and> passes (snd (pollLoop ?env 43 c')) = passes c' + 1
         \<and> last (events (snd (pollLoop ?env 43 c'))) =
              SearchUpdated \<lparr>snapData = [], finished = True, error = Some ''timeout''\<rparr>
         \<and> \<not> running (snd (pollLoop ?env 43 c'))
         \<and> windowClosed (snd (pollLoop ?env 43 c'))"
    by (rule zero_result_timeout
          [where pr = "\<lparr>modules = Some [], itemCount = 0, loaderVisible = True\<rparr>"])
       (use c' in \<open>simp_all add: scripted_def loadingPolls_def maxIterations_def\<close>)
  then show ?thesis using run c' by simp
qed

text \<open>
  Against claim C3 as stated: on a page without listings whose loader is hidden and
  whose passes take twenty seconds each, no record is ever collected and the third
  poll ends 40000 ms after polling began, yet the stability exit is taken first: the
  run ends with the final snapshot, which has no error, and no message carries
  \<^verbatim>\<open>timeout\<close>.
\<close>

theorem zero_result_timeout_counterexample:
  "deduped (snd (runSearch (scripted slowEmptyPolls))) = []
   \<and> elapsed (slowEmptyPolls 2) = 40000
   \<and> passes (snd (runSearch (scripted slowEmptyPolls))) = 3
   \<and> fst (runSearch (scripted slowEmptyPolls)) = StableExit
   \<and> events (snd (runSearch (scripted slowEmptyPolls))) =
       [SearchProgress ''enterName'', SearchProgress ''setPlatform'', SearchProgress ''waiting'',
        SearchUpdated \<lparr>snapData = [], finished = False, error = None\<rparr>,
        SearchUpdated \<lparr>snapData = [], finished = False, error = None\<rparr>,
        SearchUpdated \<lparr>snapData = [], finished = False, error = None\<rparr>,
        SearchUpdated \<lparr>snapData = [], finished = True, error = None\<rparr>]"
  by (simp add: runSearch_def scripted_def slowEmptyPolls_def pollLoop.simps [of _ 0]
      pollLoop.simps [of _ "Suc 0"] pollLoop.simps [of _ "Suc (Suc 0)"]
      maxIterations_def incremental_def Let_def progress_def send_def initial_def
      updateStability_def finalize_def nameFilter_def trim_def toLowerCase_def)

text \<open>One iteration whose scroll injection throws.\<close>

lemma scroll_throws_step:
  assumes lt: "i < maxIterations" and alive: "mainAlive env"
    and pr: "parsePass (polls env i) = Returns pr"
    and sc: "scroll (polls env i) = Throws msg"
    and ns: "\<not> (3 \<le> (if itemCount pr = lastCount c then stable c + 1 else 0) \<and> \<not> loaderVisible pr)"
    and nt: "deduped c \<noteq> [] \<or> elapsed (polls env i) \<le> 30000 \<or> zeroTimeoutTriggered c
             \<or> (seen c = {} \<and> (\<exists>m ms. modules pr = Some (m # ms)))"
  shows "\<exists>c3. pollLoop env i c = catchPath env msg c3 \<and> passes c3 = passes c + 1"
proof -
  obtain c2 where c2: "incremental env pr (c\<lparr>passes := passes c + 1\<rparr>) = Inr c2"
    and f: "lastCount c2 = lastCount c" "stable c2 = stable c"
      "zeroTimeoutTriggered c2 = zeroTimeoutTriggered c" "passes c2 = passes c + 1"
      "deduped c \<noteq> [] \<longrightarrow> deduped c2 \<noteq> []"
      "seen c = {} \<and> (\<exists>m ms. modules pr = Some (m # ms)) \<longrightarrow> deduped c2 \<noteq> []"
    using incremental_alive [OF alive, of pr "c\<lparr>passes := passes c + 1\<rparr>"] by auto
  define c3 where "c3 = updateStability (itemCount pr) c2"
  have ns': "\<not> (3 \<le> stable c3 \<and> \<not> loaderVisible pr)"
    using ns f by (auto simp: c3_def split: if_splits)
  have nt': "\<not> (\<not> zeroTimeoutTriggered c3 \<and> deduped c3 = [] \<and> 30000 < elapsed (polls env i))"
    using nt f by (auto simp: c3_def)
  have "pollLoop env i c = catchPath env msg c3"
    by (rule pollLoop_scroll_throws [OF lt pr c2 c3_def ns' nt' sc])
  then show ?thesis using f by (intro exI [of _ c3]) (auto simp: c3_def)
qed

text \<open>
  Claim C2, as amended. The main window is alive. When one of the three setup
  injections throws, the run ends without a parse pass and its last message is the
  terminal snapshot with \<open>finished = True\<close>, no data and the message of the exception
  as its error. When the scroll injection of an iteration throws (the iteration took
  neither the stability exit nor the zero-result timeout), the loop ends there and the
  last message is the terminal snapshot with \<open>finished = True\<close>, no data and the message
  of the exception as its error. When the parse pass of an iteration throws, or returns
  text that cannot be parsed, the loop ends there and the message sent is the final
  snapshot with \<open>finished = True\<close>, the records collected so far (under the name filter)
  and no error field. In each case the entry is marked as not running.
\<close>

theorem terminal_snapshot_of_errors:
  assumes alive: "mainAlive env"
  shows "(entryExists env
          \<and> (stepSelectModuleType env = Throws msg
             \<or> (stepSelectModuleType env = Returns () \<and> stepEnterSearch env = Throws msg)
             \<or> (stepSelectModuleType env = Returns () \<and> stepEnterSearch env = Returns ()
                  \<and> stepSelectPlatform env = Throws msg))
          \<longrightarrow> fst (runSearch env) = Exception msg
              \<and> last (events (snd (runSearch env))) =
                  SearchUpdated \<lparr>snapData = [], finished = True, error = Some msg\<rparr>
              \<and> passes (snd (runSearch env)) = 0
              \<and> \<not> running (snd (runSearch env)))
       \<and> (i < maxIterations \<and> parsePass (polls env i) = Returns pr
          \<and> \<not> (3 \<le> (if itemCount pr = lastCount c then stable c + 1 else 0) \<and> \<not> loaderVisible pr)
          \<and> (deduped c \<noteq> [] \<or> elapsed (polls env i) \<le> 30000 \<or> zeroTimeoutTriggered c
               \<or> (seen c = {} \<and> (\<exists>m ms. modules pr = Some (m # ms))))
          \<and> scroll (polls env i) = Throws msg
          \<longrightarrow> fst (pollLoop env i c) = Exception msg
              \<and> last (events (snd (pollLoop env i c))) =
                  SearchUpdated \<lparr>snapData = [], finished = True, error = Some msg\<rparr>
              \<and> passes (snd (pollLoop env i c)) = passes c + 1
              \<and> \<not> running (snd (pollLoop env i c)))
       \<and> (i < maxIterations \<and> parsePass (polls env i) = Throws msg
          \<longrightarrow> fst (pollLoop env i c) = ParseFailure msg
              \<and> events (snd (pollLoop env i c)) = events c @
                  [SearchUpdated \<lparr>snapData = nameFilter (moduleName env) (deduped c),
                                  finished = True, error = None\<rparr>]
              \<and> deduped (snd (pollLoop env i c)) = deduped c
              \<and> passes (snd (pollLoop env i c)) = passes c + 1
              \<and> \<not> running (snd (pollLoop env i c)))"
proof -
  have a: "fst (runSearch env) = Exception msg
              \<and> last (events (snd (runSearch env))) =
                  SearchUpdated \<lparr>snapData = [], finished = True, error = Some msg\<rparr>
              \<and> passes (snd (runSearch env)) = 0
              \<and> \<not> running (snd (runSearch env))"
    if "entryExists env"
      and "stepSelectModuleType env = Throws msg
             \<or> (stepSelectModuleType env = Returns () \<and> stepEnterSearch env = Throws msg)
             \<or> (stepSelectModuleType env = Returns () \<and> stepEnterSearch env = Returns ()
                  \<and> stepSelectPlatform env = Throws msg)"
  proof -
    have "runSearch env = catchPath env msg initial
          \<or> runSearch env = catchPath env msg (progress env ''enterName'' initial)"
      using that by (auto simp: runSearch_def Let_def)
    then show ?thesis
      using alive by (auto simp: exit_events)
  qed
  have b: "fst (pollLoop env i c) = Exception msg
              \<and> last (events (snd (pollLoop env i c))) =
                  SearchUpdated \<lparr>snapData = [], finished = True, error = Some msg\<rparr>
              \<and> passes (snd (pollLoop env i c)) = passes c + 1
              \<and> \<not> running (snd (pollLoop env i c))"
    if h: "i < maxIterations" "parsePass (polls env i) = Returns pr"
      "\<not> (3 \<le> (if itemCount pr = lastCount c then stable c + 1 else 0) \<and> \<not> loaderVisible pr)"
      "deduped c \<noteq> [] \<or> elapsed (polls env i) \<le> 30000 \<or> zeroTimeoutTriggered c
               \<or> (seen c = {} \<and> (\<exists>m ms. modules pr = Some (m # ms)))"
      "scroll (polls env i) = Throws msg"
  proof -
    obtain c3 where "pollLoop env i c = catchPath env msg c3" "passes c3 = passes c + 1"
      using scroll_throws_step [OF h(1) alive h(2,5,3,4)] by blast
    then show ?thesis using alive by (simp add: exit_events)
  qed
  have d: "fst (pollLoop env i c) = ParseFailure msg
              \<and> events (snd (pollLoop env i c)) = events c @
                  [SearchUpdated \<lparr>snapData = nameFilter (moduleName env) (deduped c),
                                  finished = True, error = None\<rparr>]
              \<and> deduped (snd (pollLoop env i c)) = deduped c
              \<and> passes (snd (pollLoop env i c)) = passes c + 1
              \<and> \<not> running (snd (pollLoop env i c))"
    if "i < maxIterations" and "parsePass (polls env i) = Throws msg"
    using pollLoop_parse_throws [OF that, of c] alive by (simp add: exit_events)
  from a b d show ?thesis by blast
qed

theorem terminal_snapshot_of_errors_witness:
  "last (events (snd (runSearch failingSetup))) =
       SearchUpdated \<lparr>snapData = [], finished = True, error = Some ''Script failed to execute''\<rparr>
   \<and> passes (snd (runSearch failingSetup)) = 0
   \<and> last (events (snd (runSearch (scripted failingScrollPolls)))) =
       SearchUpdated \<lparr>snapData = [], finished = True, error = Some ''Object has been destroyed''\<rparr>
   \<and> passes (snd (runSearch (scripted failingScrollPolls))) = 2
   \<and> last (events (snd (runSearch (scripted failingParsePolls)))) =
       SearchUpdated \<lparr>snapData = [listing ''a'' ''10'' ''s1''], finished = True, error = None\<rparr>
   \<and> passes (snd (runSearch (scripted failingParsePolls))) = 2"
proof -
  have e: "mainAlive failingSetup" "entryExists failingSetup"
    "stepSelectModuleType failingSetup = Returns ()" "stepEnterSearch failingSetup = Returns ()"
    "stepSelectPlatform failingSetup = Throws ''Script failed to execute''"
    by (simp_all add: failingSetup_def scripted_def)
  have x: "last (events (snd (runSearch failingSetup))) =
       SearchUpdated \<lparr>snapData = [], finished = True, error = Some ''Script failed to execute''\<rparr>
     \<and> passes (snd (runSearch failingSetup)) = 0"
    using terminal_snapshot_of_errors [OF e(1), where msg = "''Script failed to execute''"] e(2-5)
    by blast
  let ?s = "scripted failingScrollPolls"
  let ?sc = "progress ?s ''waiting'' (progress ?s ''setPlatform'' (progress ?s ''enterName'' initial))"
  let ?prA = "\<lparr>modules = Some fiveListings, itemCount = 5, loaderVisible = True\<rparr> :: module parsedResult"
  let ?prB = "\<lparr>modules = Some fiveListings, itemCount = 5, loaderVisible = False\<rparr> :: module parsedResult"
  have srun: "runSearch ?s = pollLoop ?s 0 ?sc"
    by (rule runSearch_setup_ok) (simp_all add: scripted_def)
  have s0: "0 < maxIterations" "mainAlive ?s" "parsePass (polls ?s 0) = Returns ?prA"
    "scroll (polls ?s 0) = Returns ()"
    "\<not> (3 \<le> (if itemCount ?prA = lastCount ?sc then stable ?sc + 1 else 0) \<and> \<not> loaderVisible ?prA)"
    "deduped ?sc \<noteq> [] \<or> elapsed (polls ?s 0) \<le> 30000
       \<or> (seen ?sc = {} \<and> (\<exists>m ms. modules ?prA = Some (m # ms)))"
    by (simp_all add: scripted_def failingScrollPolls_def steadyPolls_def maxIterations_def)
  obtain c1 where c1: "pollLoop ?s 0 ?sc = pollLoop ?s (Suc 0) c1" "lastCount c1 = 5"
    "stable c1 = 0" "passes c1 = 1"
    using continue_step [OF s0] by auto
  have s1: "Suc 0 < maxIterations" "parsePass (polls ?s (Suc 0)) = Returns ?prB"
    "scroll (polls ?s (Suc 0)) = Throws ''Object has been destroyed''"
    "elapsed (polls ?s (Suc 0)) \<le> 30000"
    by (simp_all add: scripted_def failingScrollPolls_def steadyPolls_def maxIterations_def)
  have y: "last (events (snd (runSearch ?s))) =
       SearchUpdated \<lparr>snapData = [], finished = True, error = Some ''Object has been destroyed''\<rparr>
     \<and> passes (snd (runSearch ?s)) = 2"
    using terminal_snapshot_of_errors [OF s0(2), where i = "Suc 0" and c = c1 and pr = ?prB
        and msg = "''Object has been destroyed''"] s1 c1 srun
    by simp
  let ?p = "scripted failingParsePolls"
  let ?pc = "progress ?p ''waiting'' (progress ?p ''setPlatform'' (progress ?p ''enterName'' initial))"
  let ?qr = "\<lparr>modules = Some [listing ''a'' ''10'' ''s1''], itemCount = 1, loaderVisible = True\<rparr>
               :: module parsedResult"
  have prun: "runSearch ?p = pollLoop ?p 0 ?pc"
    by (rule runSearch_setup_ok) (simp_all add: scripted_def)
  have p0: "0 < maxIterations" "mainAlive ?p" "parsePass (polls ?p 0) = Returns ?qr"
    "scroll (polls ?p 0) = Returns ()"
    "\<not> (3 \<le> (if itemCount ?qr = lastCount ?pc then stable ?pc + 1 else 0) \<and> \<not> loaderVisible ?qr)"
    "deduped ?pc \<noteq> [] \<or> elapsed (polls ?p 0) \<le> 30000
       \<or> (seen ?pc = {} \<and> (\<exists>m ms. modules ?qr = Some (m # ms)))"
    by (simp_all add: scripted_def failingParsePolls_def maxIterations_def)
  obtain d1 where d1: "pollLoop ?p 0 ?pc = pollLoop ?p (Suc 0) d1" "passes d1 = 1"
    using continue_step [OF p0] by auto
  have p1: "Suc 0 < maxIterations" "parsePass (polls ?p (Suc 0)) = Throws ''Unexpected end of JSON input''"
    "moduleName ?p = []"
    by (simp_all add: scripted_def failingParsePolls_def maxIterations_def)
  have dd: "deduped (snd (runSearch ?p)) = [listing ''a'' ''10'' ''s1'']"
    by (simp add: runSearch_def scripted_def failingParsePolls_def
        pollLoop.simps [of _ 0] pollLoop.simps [of _ "Suc 0"]
        maxIterations_def incremental_def Let_def progress_def send_def initial_def
        updateStability_def finalize_def nameFilter_def trim_def toLowerCase_def
        mergeModule_def dedupeKey_def)
  have z: "last (events (snd (runSearch ?p))) =
       SearchUpdated \<lparr>snapData = [listing ''a'' ''10'' ''s1''], finished = True, error = None\<rparr>
     \<and> passes (snd (runSearch ?p)) = 2"
    using terminal_snapshot_of_errors [OF p0(2), where i = "Suc 0" and c = d1
        and msg = "''Unexpected end of JSON input''"] p1 d1 prun dd
    by (simp add: nameFilter_def trim_def toLowerCase_def)
  from x y z show ?thesis by blast
qed

text \<open>
  Against claim C2 as stated: when the first parse pass throws, the run ends with a
  terminal snapshot that has \<open>finished = True\<close> and no error field.
\<close>

theorem terminal_snapshot_of_errors_counterexample:
  "parsePass (polls (scripted brokenPolls) 0) = Throws ''Unexpected token < in JSON at position 0''
   \<and> fst (runSearch (scripted brokenPolls)) = ParseFailure ''Unexpected token < in JSON at position 0''
   \<and> events (snd (runSearch (scripted brokenPolls))) =
       [SearchProgress ''enterName'', SearchProgress ''setPlatform'', SearchProgress ''waiting'',
        SearchUpdated \<lparr>snapData = [], finished = True, error = None\<rparr>]"
  by (simp add: runSearch_def scripted_def brokenPolls_def pollLoop.simps [of _ 0]
      maxIterations_def Let_def progress_def send_def initial_def
      finalize_def nameFilter_def trim_def toLowerCase_def)

text \<open>On the growing page the loop runs to the cap.\<close>

lemma growing_run:
  assumes "deduped c \<noteq> [] \<or> (i = 0 \<and> seen c = {})" and "lastCount c < 5 + i"
  shows "fst (pollLoop (scripted growingPolls) i c) = CapExit
         \<and> passes (snd (pollLoop (scripted growingPolls) i c)) = passes c + (maxIterations - i)"
  using assms
proof (induction "maxIterations - i" arbitrary: i c)
  case 0
  then have "\<not> i < maxIterations" by simp
  then show ?case using pollLoop_cap [of i "scripted growingPolls" c] by simp
next
  case (Suc n)
  then have lt: "i < maxIterations" by simp
  let ?pr = "\<lparr>modules = Some fiveListings, itemCount = 5 + i, loaderVisible = False\<rparr> :: module parsedResult"
  have pr: "parsePass (polls (scripted growingPolls) i) = Returns ?pr"
    and sc: "scroll (polls (scripted growingPolls) i) = Returns ()"
    and al: "mainAlive (scripted growingPolls)"
    by (simp_all add: scripted_def growingPolls_def)
  have ns: "\<not> (3 \<le> (if itemCount ?pr = lastCount c then stable c + 1 else 0) \<and> \<not> loaderVisible ?pr)"
    using Suc.prems(2) by simp
  have nt: "deduped c \<noteq> [] \<or> elapsed (polls (scripted growingPolls) i) \<le> 30000
             \<or> (seen c = {} \<and> (\<exists>m ms. modules ?pr = Some (m # ms)))"
    using Suc.prems(1) by (auto simp: fiveListings_def)
  obtain c3 where c3: "pollLoop (scripted growingPolls) i c = pollLoop (scripted growingPolls) (Suc i) c3"
    "lastCount c3 = 5 + i" "passes c3 = passes c + 1" "deduped c3 \<noteq> []"
    using continue_step [OF lt al pr sc ns nt] Suc.prems(1) by (auto simp: fiveListings_def)
  have "fst (pollLoop (scripted growingPolls) (Suc i) c3) = CapExit
      \<and> passes (snd (pollLoop (scripted growingPolls) (Suc i) c3)) = passes c3 + (maxIterations - Suc i)"
    using Suc.hyps(2) c3 by (intro Suc.hyps(1)) auto
  then show ?case using c3 lt by simp
qed

lemma growing_whole_run:
  "fst (runSearch (scripted growingPolls)) = CapExit
   \<and> passes (snd (runSearch (scripted growingPolls))) = 60"
proof -
  have "runSearch (scripted growingPolls) = pollLoop (scripted growingPolls) 0
     (progress (scripted growingPolls) ''waiting'' (progress (scripted growingPolls) ''setPlatform''
        (progress (scripted growingPolls) ''enterName'' initial)))"
    by (rule runSearch_setup_ok) (simp_all add: scripted_def)
  then show ?thesis
    using growing_run [of "progress (scripted growingPolls) ''waiting''
        (progress (scripted growingPolls) ''setPlatform''
          (progress (scripted growingPolls) ''enterName'' initial))" 0]
    by (simp add: maxIterations_def progress_def send_def)
qed

theorem polling_loop_bounded_witness:
  "passes (snd (runSearch (scripted growingPolls))) \<le> 60
   \<and> passes (snd (runSearch (scripted growingPolls))) = 60
   \<and> fst (runSearch (scripted growingPolls)) = CapExit
   \<and> \<not> running (snd (pollLoop (scripted growingPolls) 0 initial))"
  using polling_loop_bounded [where env = "scripted growingPolls" and i = 0 and c = initial]
    growing_whole_run
  by simp

section \<open>Properties of the predicate of updateResults\<close>

text \<open>The loop over the selected attributes is a conjunction of one test per attribute.\<close>

lemma attrLoop_all: "attrLoop rs m attrs = list_all (\<lambda>a. attrLoop rs m [a]) attrs"
  by (induction attrs) (auto simp: Let_def)

lemma js_lt_Num: "js_lt (Num v) b = (\<exists>lo. b = Num lo \<and> v < lo)"
  by (cases b) auto

lemma js_gt_Num: "js_gt (Num v) b = (\<exists>hi. b = Num hi \<and> hi < v)"
  by (cases b) auto

lemma attrLoop_single:
  "attrLoop rs m [attr] =
     (attr \<in> set (attributes m)
      \<and> (case lookupValue (attrValues m) attr of
           None \<Rightarrow> True
         | Some v \<Rightarrow>
             (case rmin (lookupRange rs attr) of Some (Num lo) \<Rightarrow> lo \<le> v | _ \<Rightarrow> True)
             \<and> (case rmax (lookupRange rs attr) of Some (Num hi) \<Rightarrow> v \<le> hi | _ \<Rightarrow> True)))"
  by (auto simp: Let_def split: option.splits jsnum.splits)

text \<open>
  Claim C4. A record passes the attribute filter exactly when, for every selected
  attribute, it has the attribute and its parsed value, if it has one, is not below a
  numeric minimum and not above a numeric maximum of that attribute: the bounds are
  inclusive, and a record without a parsed value is never excluded by a range.
\<close>

theorem attribute_range_inclusive:
  "attrMatch fs m \<longleftrightarrow>
     (\<forall>attr \<in> set (selectedAttrs fs).
        attr \<in> set (attributes m)
        \<and> (case lookupValue (attrValues m) attr of
             None \<Rightarrow> True
           | Some v \<Rightarrow>
               (case rmin (lookupRange (selectedAttrRanges fs) attr) of
                  Some (Num lo) \<Rightarrow> lo \<le> v
                | _ \<Rightarrow> True)
               \<and> (case rmax (lookupRange (selectedAttrRanges fs) attr) of
                    Some (Num hi) \<Rightarrow> v \<le> hi
                  | _ \<Rightarrow> True)))"
proof -
  have "attrMatch fs m = list_all (\<lambda>a. attrLoop (selectedAttrRanges fs) m [a]) (selectedAttrs fs)"
    unfolding attrMatch_def by (rule attrLoop_all)
  then show ?thesis
    unfolding list_all_iff attrLoop_single by simp
qed

theorem attribute_range_inclusive_witness:
  "attrMatch (powerBetween 10 10) (powerRecord (Some 10))
   \<and> \<not> attrMatch (powerBetween 10.01 20) (powerRecord (Some 10))
   \<and> attrMatch (powerBetween 10.01 20) (powerRecord None)"
  unfolding attribute_range_inclusive
  by (simp add: powerBetween_def powerRecord_def noFilters_def listing_def lookupValue_def
      lookupRange_def module.defs hmodule.defs)

lemma matchesFilters_rank_reroll:
  "isTriggerMode fs \<Longrightarrow>
   matchesFilters (fs\<lparr>mrMinVal := a, mrMaxVal := b, rerollMinVal := c, rerollMaxVal := d\<rparr>)
     = matchesFilters fs"
  by (rule ext)
     (simp add: matchesFilters_def catMatch_def attrMatch_def socketMatch_def platformMatch_def
        priceMatch_def mrMatch_def rerollMatch_def statusMatch_def ageMatch_def ageHoursMatch_def
        triggerMatch_def negFilterMatch_def sellerMatch_def moduleMatch_def)

text \<open>
  Claim C5. In Trigger mode the four bounds on the required rank and on the reroll
  count are not read: a record passes under one setting of them exactly when it passes
  under any other, and the filtered list is the same.
\<close>

theorem trigger_mode_ignores_rank_and_reroll:
  assumes "isTriggerMode fs"
  shows "matchesFilters (fs\<lparr>mrMinVal := a, mrMaxVal := b, rerollMinVal := c, rerollMaxVal := d\<rparr>) m
           = matchesFilters fs m
       \<and> filtered (fs\<lparr>mrMinVal := a, mrMaxVal := b, rerollMinVal := c, rerollMaxVal := d\<rparr>) ms
           = filtered fs ms"
  using assms by (simp add: filtered_def matchesFilters_rank_reroll)

theorem trigger_mode_ignores_rank_and_reroll_witness:
  "matchesFilters (triggerSample 5 (Some (Num 3)) (Some (Num 7))) (rangeRecord ''Arc'' (Some 6))
     = matchesFilters (triggerSample 5 None None) (rangeRecord ''Arc'' (Some 6))
   \<and> filtered (triggerSample 5 (Some (Num 3)) (Some (Num 7)))
        [rangeRecord ''Arc'' (Some 6), rangeRecord ''Bolt'' (Some 4)]
     = filtered (triggerSample 5 None None)
        [rangeRecord ''Arc'' (Some 6), rangeRecord ''Bolt'' (Some 4)]"
  using trigger_mode_ignores_rank_and_reroll
    [where fs = "triggerSample 5 None None" and a = "Some (Num 3)" and b = "Some (Num 3)"
       and c = "Some (Num 7)" and d = "Some (Num 7)" and m = "rangeRecord ''Arc'' (Some 6)"
       and ms = "[rangeRecord ''Arc'' (Some 6), rangeRecord ''Bolt'' (Some 4)]"]
  by (simp add: triggerSample_def noFilters_def)

text \<open>A key of the trigger filters with a bound, for which the record has no value, ends the loop.\<close>

lemma triggerLoop_excludes:
  assumes "attr \<in> set attrs"
    and "rmin (lookupRange tf attr) \<noteq> None \<or> rmax (lookupRange tf attr) \<noteq> None"
    and "triggerValue m attr = None"
  shows "\<not> triggerLoop tf m attrs"
  using assms by (induction attrs) (auto simp: Let_def split: option.splits)

text \<open>
  Claim C10. In Trigger mode, once the trigger filters have been built
  (\<^verbatim>\<open>triggerAttrMap\<close> is set), a record whose \<^verbatim>\<open>triggerValues\<close> has no number for an
  attribute (the entry is \<^verbatim>\<open>null\<close> or missing, or the record has no
  \<^verbatim>\<open>triggerValues\<close>) fails the filter as soon as a minimum or a maximum is set for that
  attribute, and is not in the filtered list.
\<close>

theorem trigger_filter_excludes_absent_value:
  assumes "isTriggerMode fs" and "triggerAttrMap fs \<noteq> None"
    and "map_of (triggerFilterValues fs) attr = Some f"
    and "rmin f \<noteq> None \<or> rmax f \<noteq> None"
    and "triggerValue m attr = None"
  shows "\<not> matchesFilters fs m \<and> m \<notin> set (filtered fs ms)"
proof -
  have "attr \<in> set (map fst (triggerFilterValues fs))"
    using assms(3) by (metis map_of_eq_None_iff option.distinct(1) set_map)
  moreover have "rmin (lookupRange (triggerFilterValues fs) attr) \<noteq> None
      \<or> rmax (lookupRange (triggerFilterValues fs) attr) \<noteq> None"
    using assms(3,4) by (simp add: lookupRange_def)
  ultimately have "\<not> triggerLoop (triggerFilterValues fs) m (map fst (triggerFilterValues fs))"
    using assms(5) by (rule triggerLoop_excludes)
  then have "\<not> triggerMatch fs m"
    using assms(1,2) by (simp add: triggerMatch_def)
  then show ?thesis by (simp add: matchesFilters_def filtered_def)
qed

theorem trigger_filter_excludes_absent_value_witness:
  "\<not> matchesFilters (triggerSample 5 None None) (rangeRecord ''Arc'' None)
   \<and> rangeRecord ''Arc'' None
       \<notin> set (filtered (triggerSample 5 None None) [rangeRecord ''Arc'' None, rangeRecord ''Bolt'' (Some 6)])
   \<and> matchesFilters (triggerSample 5 None None) (rangeRecord ''Bolt'' (Some 6))"
proof -
  have "\<not> matchesFilters (triggerSample 5 None None) (rangeRecord ''Arc'' None)
     \<and> rangeRecord ''Arc'' None
         \<notin> set (filtered (triggerSample 5 None None) [rangeRecord ''Arc'' None, rangeRecord ''Bolt'' (Some 6)])"
    by (rule trigger_filter_excludes_absent_value
          [where attr = "''Range''" and f = "\<lparr>rmin = Some (Num 5), rmax = None\<rparr>"])
       (simp_all add: triggerSample_def noFilters_def rangeRecord_def triggerValue_def
          lookupValue_def module.defs hmodule.defs)
  moreover have "matchesFilters (triggerSample 5 None None) (rangeRecord ''Bolt'' (Some 6))"
    by (simp add: matchesFilters_def catMatch_def attrMatch_def socketMatch_def platformMatch_def
        priceMatch_def mrMatch_def rerollMatch_def statusMatch_def ageMatch_def ageHoursMatch_def
        triggerMatch_def negFilterMatch_def sellerMatch_def moduleMatch_def boundsMatch_def
        triggerSample_def noFilters_def rangeRecord_def triggerValue_def lookupValue_def
        lookupRange_def listing_def module.defs hmodule.defs Let_def priceNum_def
        parseFloatDigits_def is_digit_def)
  ultimately show ?thesis by blast
qed

section \<open>Properties of the age parser\<close>

lemma lower_char_other:
  assumes "c \<notin> set ''ABCDEFGHIJKLMNOPQRSTUVWXYZ''"
  shows "lower_char c = c"
proof -
  have "map_of (zip ''ABCDEFGHIJKLMNOPQRSTUVWXYZ'' ''abcdefghijklmnopqrstuvwxyz'') c = None"
    by (subst map_of_zip_is_None) (use assms in simp_all)
  then show ?thesis by (simp only: lower_char_def option.case)
qed

lemma lower_char_digit: "is_digit c \<Longrightarrow> lower_char c = c"
  by (rule lower_char_other) (auto simp: is_digit_def)

lemma lower_char_space: "is_space c \<Longrightarrow> lower_char c = c"
  by (rule lower_char_other) (auto simp: is_space_def)

lemma lower_char_point: "lower_char (CHR ''.'') = CHR ''.''"
  by (rule lower_char_other) simp

lemma toLowerCase_id: "\<forall>c\<in>set s. lower_char c = c \<Longrightarrow> toLowerCase s = s"
  by (simp add: toLowerCase_def map_idI)

lemma toLowerCase_append: "toLowerCase (a @ b) = toLowerCase a @ toLowerCase b"
  by (simp add: toLowerCase_def)

lemma toLowerCase_numeral:
  assumes "\<forall>c\<in>set ip. is_digit c" "\<forall>c\<in>set fp. is_digit c"
  shows "toLowerCase (decimalNumeral ip fp) = decimalNumeral ip fp"
proof -
  have "toLowerCase ip = ip" "toLowerCase fp = fp"
    using assms by (simp_all add: toLowerCase_id lower_char_digit)
  moreover have "toLowerCase (CHR ''.'' # fp) = CHR ''.'' # toLowerCase fp"
    by (simp add: toLowerCase_def lower_char_point)
  moreover have "toLowerCase [] = []"
    by (simp add: toLowerCase_def)
  ultimately show ?thesis
    by (simp add: decimalNumeral_def toLowerCase_append)
qed

lemma not_digit_space: "is_space c \<Longrightarrow> \<not> is_digit c"
  by (auto simp: is_space_def is_digit_def)

lemma space_not_point: "is_space c \<Longrightarrow> c \<noteq> CHR ''.''"
  by (auto simp: is_space_def)

text \<open>After the numeral: white space, then a word that starts with a letter.\<close>

lemma takeWhile_digit_unit:
  assumes "\<forall>c\<in>set ws. is_space c" "\<not> is_digit u"
  shows "takeWhile is_digit (ws @ u # rest) = []"
  using assms by (cases ws) (auto simp: not_digit_space)

lemma dropWhile_digit_unit:
  assumes "\<forall>c\<in>set ws. is_space c" "\<not> is_digit u"
  shows "dropWhile is_digit (ws @ u # rest) = ws @ u # rest"
  using assms by (cases ws) (auto simp: not_digit_space)

lemma dropWhile_space_unit:
  assumes "\<forall>c\<in>set ws. is_space c" "\<not> is_space u"
  shows "dropWhile is_space (ws @ u # rest) = u # rest"
  using assms by (induction ws) auto

lemma matchAgeAt_numeral:
  assumes ip: "ip \<noteq> []" "\<forall>c\<in>set ip. is_digit c" and fp: "\<forall>c\<in>set fp. is_digit c"
    and ws: "\<forall>c\<in>set ws. is_space c"
    and u: "\<not> is_digit u" "\<not> is_space u" "u \<noteq> CHR ''.''"
  shows "matchAgeAt (decimalNumeral ip fp @ ws @ u # rest) =
           (if startsWith (u # rest) ''day'' then Some (decimalValue ip fp, DayUnit)
            else if startsWith (u # rest) ''hour'' then Some (decimalValue ip fp, HourUnit)
            else None)"
proof (cases "fp = []")
  case True
  have t: "takeWhile is_digit (ip @ ws @ u # rest) = ip"
    using ip(2) takeWhile_digit_unit [OF ws u(1)] by (simp add: takeWhile_append2)
  have d: "dropWhile is_digit (ip @ ws @ u # rest) = ws @ u # rest"
    using ip(2) dropWhile_digit_unit [OF ws u(1)] by (simp add: dropWhile_append2)
  have f: "(case ws @ u # rest of [] \<Rightarrow> [] | c # t \<Rightarrow> if c = CHR ''.'' then takeWhile is_digit t else []) = []"
    using ws u(3) by (cases ws) (auto simp: space_not_point)
  have s: "dropWhile is_space (ws @ u # rest) = u # rest"
    by (rule dropWhile_space_unit [OF ws u(2)])
  have e: "decimalNumeral ip fp @ ws @ u # rest = ip @ ws @ u # rest"
    using True by (simp add: decimalNumeral_def)
  show ?thesis
    unfolding e matchAgeAt_def t d f Let_def using True ip(1) by (simp add: s)
next
  case False
  have np: "\<not> is_digit (CHR ''.'')" by (simp add: is_digit_def)
  have e: "decimalNumeral ip fp @ ws @ u # rest = ip @ CHR ''.'' # fp @ ws @ u # rest"
    using False by (simp add: decimalNumeral_def)
  have t: "takeWhile is_digit (ip @ CHR ''.'' # fp @ ws @ u # rest) = ip"
    using ip(2) np by (simp add: takeWhile_append2)
  have d: "dropWhile is_digit (ip @ CHR ''.'' # fp @ ws @ u # rest) = CHR ''.'' # fp @ ws @ u # rest"
    using ip(2) np by (simp add: dropWhile_append2)
  have f: "takeWhile is_digit (fp @ ws @ u # rest) = fp"
    using fp takeWhile_digit_unit [OF ws u(1)] by (simp add: takeWhile_append2)
  have s: "dropWhile is_space (ws @ u # rest) = u # rest"
    by (rule dropWhile_space_unit [OF ws u(2)])
  show ?thesis
    unfolding e matchAgeAt_def t d Let_def using False ip(1) by (simp add: f s)
qed

lemma searchAge_hit: "matchAgeAt s = Some r \<Longrightarrow> searchAge s = Some r"
  by (cases s) (simp_all add: matchAgeAt_def)

lemma toLowerCase_phrase:
  assumes "\<forall>c\<in>set ip. is_digit c" "\<forall>c\<in>set fp. is_digit c" "\<forall>c\<in>set ws. is_space c"
  shows "toLowerCase (decimalNumeral ip fp @ ws @ w @ rest)
           = decimalNumeral ip fp @ ws @ toLowerCase w @ toLowerCase rest"
  using assms
  by (simp add: toLowerCase_append toLowerCase_numeral toLowerCase_id lower_char_space)

lemma toLowerCase_units: "toLowerCase ''day'' = ''day''" "toLowerCase ''hour'' = ''hour''"
  by (simp_all add: toLowerCase_def lower_char_def)

lemma searchAge_day:
  assumes "ip \<noteq> []" "\<forall>c\<in>set ip. is_digit c" "\<forall>c\<in>set fp. is_digit c" "\<forall>c\<in>set ws. is_space c"
  shows "searchAge (decimalNumeral ip fp @ ws @ ''day'' @ rest) = Some (decimalValue ip fp, DayUnit)"
proof -
  have "matchAgeAt (decimalNumeral ip fp @ ws @ CHR ''d'' # ''ay'' @ rest)
          = Some (decimalValue ip fp, DayUnit)"
    by (subst matchAgeAt_numeral [OF assms])
       (simp_all add: is_digit_def is_space_def startsWith_def)
  then show ?thesis by (simp add: searchAge_hit)
qed

lemma searchAge_hour:
  assumes "ip \<noteq> []" "\<forall>c\<in>set ip. is_digit c" "\<forall>c\<in>set fp. is_digit c" "\<forall>c\<in>set ws. is_space c"
  shows "searchAge (decimalNumeral ip fp @ ws @ ''hour'' @ rest) = Some (decimalValue ip fp, HourUnit)"
proof -
  have "matchAgeAt (decimalNumeral ip fp @ ws @ CHR ''h'' # ''our'' @ rest)
          = Some (decimalValue ip fp, HourUnit)"
    by (subst matchAgeAt_numeral [OF assms])
       (simp_all add: is_digit_def is_space_def startsWith_def)
  then show ?thesis by (simp add: searchAge_hit)
qed

text \<open>
  Claim C8. For a registration date that is a decimal numeral \<open>N\<close> (digits, with or
  without a fraction), white space and a word that starts with \<^verbatim>\<open>day\<close>, as in
  \<^verbatim>\<open>N days ago\<close>, the age in hours is \<open>N\<close> times 24; when the word starts with
  \<^verbatim>\<open>hour\<close>, as in \<^verbatim>\<open>N hours ago\<close>, it is \<open>N\<close>. The value of a day-phrased entry
  is therefore zero only when \<open>N\<close> itself is zero.
\<close>

theorem age_in_hours:
  assumes "ip \<noteq> []" and "\<forall>c\<in>set ip. is_digit c" and "\<forall>c\<in>set fp. is_digit c"
    and "\<forall>c\<in>set ws. is_space c"
  shows "parseAgeToHours (decimalNumeral ip fp @ ws @ ''day'' @ rest) = Some (decimalValue ip fp * 24)
       \<and> parseAgeToHours (decimalNumeral ip fp @ ws @ ''hour'' @ rest) = Some (decimalValue ip fp)
       \<and> (parseAgeToHours (decimalNumeral ip fp @ ws @ ''day'' @ rest) = Some 0
            \<longleftrightarrow> decimalValue ip fp = 0)"
proof -
  have ne: "decimalNumeral ip fp @ x \<noteq> []" for x
    using assms(1) by (simp add: decimalNumeral_def)
  have d: "parseAgeToHours (decimalNumeral ip fp @ ws @ ''day'' @ rest) = Some (decimalValue ip fp * 24)"
    unfolding parseAgeToHours_def
    using ne searchAge_day [OF assms, of "toLowerCase rest"]
    by (simp add: toLowerCase_phrase [OF assms(2-4)] toLowerCase_units del: append_Cons)
  have h: "parseAgeToHours (decimalNumeral ip fp @ ws @ ''hour'' @ rest) = Some (decimalValue ip fp)"
    unfolding parseAgeToHours_def
    using ne searchAge_hour [OF assms, of "toLowerCase rest"]
    by (simp add: toLowerCase_phrase [OF assms(2-4)] toLowerCase_units del: append_Cons)
  from d h show ?thesis by simp
qed

theorem age_in_hours_witness:
  "parseAgeToHours ''3 days ago'' = Some 72
   \<and> parseAgeToHours ''12 hours ago'' = Some 12
   \<and> parseAgeToHours ''1.5 days ago'' = Some 36
   \<and> parseAgeToHours ''3 days ago'' \<noteq> Some 0"
proof -
  have a: "parseAgeToHours (decimalNumeral ''3'' [] @ '' '' @ ''day'' @ ''s ago'')
            = Some (decimalValue ''3'' [] * 24)"
    using age_in_hours [of "''3''" "[]" "'' ''" "''s ago''"] by (simp add: is_digit_def is_space_def)
  have b: "parseAgeToHours (decimalNumeral ''12'' [] @ '' '' @ ''hour'' @ ''s ago'')
            = Some (decimalValue ''12'' [])"
    using age_in_hours [of "''12''" "[]" "'' ''" "''s ago''"] by (simp add: is_digit_def is_space_def)
  have c: "parseAgeToHours (decimalNumeral ''1'' ''5'' @ '' '' @ ''day'' @ ''s ago'')
            = Some (decimalValue ''1'' ''5'' * 24)"
    using age_in_hours [of "''1''" "''5''" "'' ''" "''s ago''"] by (simp add: is_digit_def is_space_def)
  have v: "decimalValue ''3'' [] = 3" "decimalValue ''12'' [] = 12" "decimalValue ''1'' ''5'' = 3 / 2"
    by (simp_all add: decimalValue_def digitsValue_def digitValue_def)
  from a b c show ?thesis by (simp add: v decimalNumeral_def)
qed

section \<open>Properties of the record stores\<close>

lemma sameIdentity_key: "sameIdentity a b \<Longrightarrow> dedupeKey a = dedupeKey b"
  by (simp add: sameIdentity_def dedupeKey_def)

lemma storeInv_initial: "storeInv initial"
  by (simp add: storeInv_def initial_def)

lemma storeInv_mergeModule: "storeInv c \<Longrightarrow> storeInv (mergeModule m c)"
  by (auto simp: storeInv_def mergeModule_def)

lemma storeInv_mergeModules: "storeInv c \<Longrightarrow> storeInv (mergeModules ms c)"
  by (induction ms arbitrary: c) (simp_all add: storeInv_mergeModule)

lemma mergeModule_known:
  "storeInv c \<Longrightarrow> r \<in> set (deduped c) \<Longrightarrow> dedupeKey r' = dedupeKey r \<Longrightarrow> mergeModule r' c = c"
  by (auto simp: storeInv_def mergeModule_def)

lemma mergeModule_stores:
  "storeInv c \<Longrightarrow> \<exists>x \<in> set (deduped (mergeModule r c)). dedupeKey x = dedupeKey r"
  by (auto simp: storeInv_def mergeModule_def)

lemma distinct_key_count:
  "distinct (map f xs) \<Longrightarrow> x \<in> set xs \<Longrightarrow> length (filter (\<lambda>m. f m = f x) xs) = 1"
proof (induction xs)
  case Nil
  then show ?case by simp
next
  case (Cons a xs)
  show ?case
  proof (cases "f a = f x")
    case True
    have "f a \<notin> f ` set xs"
      using Cons.prems(1) by simp
    then have "\<forall>m\<in>set xs. f m \<noteq> f x"
      unfolding True by (metis image_eqI)
    then have "filter (\<lambda>m. f m = f x) xs = []"
      by (simp add: filter_empty_conv)
    with True show ?thesis by simp
  next
    case False
    then have "x \<in> set xs" using Cons.prems(2) by auto
    with False Cons show ?thesis by simp
  qed
qed

lemma mergeModule_twice:
  assumes "storeInv c" and "sameIdentity r' r"
  shows "mergeModule r' (mergeModule r c) = mergeModule r c"
    and "length (filter (\<lambda>m. dedupeKey m = dedupeKey r) (deduped (mergeModule r' (mergeModule r c)))) = 1"
proof -
  have inv: "storeInv (mergeModule r c)" by (rule storeInv_mergeModule [OF assms(1)])
  obtain x where x: "x \<in> set (deduped (mergeModule r c))" "dedupeKey x = dedupeKey r"
    using mergeModule_stores [OF assms(1), of r] by blast
  show eq: "mergeModule r' (mergeModule r c) = mergeModule r c"
    using mergeModule_known [OF inv x(1)] x(2) sameIdentity_key [OF assms(2)] by simp
  show "length (filter (\<lambda>m. dedupeKey m = dedupeKey r) (deduped (mergeModule r' (mergeModule r c)))) = 1"
    unfolding eq using distinct_key_count [of dedupeKey, OF _ x(1)] inv x(2)
    by (simp add: storeInv_def)
qed

text \<open>Where no name and no price holds the separator, the joined key tells the identity.\<close>

lemma split_at_bar:
  assumes "CHR ''|'' \<notin> set a" and "CHR ''|'' \<notin> set a'" and "a @ ''|'' @ b = a' @ ''|'' @ b'"
  shows "a = a' \<and> b = b'"
proof -
  have t: "takeWhile (\<lambda>x. x \<noteq> CHR ''|'') (xs @ ''|'' @ ys) = xs" if "CHR ''|'' \<notin> set xs" for xs ys
    using that by (induction xs) auto
  have "a = a'"
    using t [OF assms(1), of b] t [OF assms(2), of b'] assms(3) by simp
  then show ?thesis using assms(3) by simp
qed

lemma key_identity:
  assumes "barFree a" and "barFree b"
  shows "dedupeKey a = dedupeKey b \<longleftrightarrow> sameIdentity a b"
proof
  assume k: "dedupeKey a = dedupeKey b"
  have n: "name a = name b \<and> price a @ ''|'' @ sellerName a = price b @ ''|'' @ sellerName b"
    by (rule split_at_bar) (use assms k in \<open>simp_all add: barFree_def dedupeKey_def\<close>)
  then have "price a = price b \<and> sellerName a = sellerName b"
    by (intro split_at_bar) (use assms in \<open>simp_all add: barFree_def\<close>)
  with n show "sameIdentity a b" by (simp add: sameIdentity_def)
next
  assume "sameIdentity a b"
  then show "dedupeKey a = dedupeKey b" by (rule sameIdentity_key)
qed

lemma mergeModule_new:
  assumes "storeInv c" and "dedupeKey r \<notin> seen c" and "sameIdentity r' r"
  shows "filter (\<lambda>m. sameIdentity m r) (deduped (mergeModule r' (mergeModule r c))) = [r]"
proof -
  have "dedupeKey m \<in> seen c" if "m \<in> set (deduped c)" for m
    using assms(1) that by (simp add: storeInv_def)
  then have "dedupeKey m \<noteq> dedupeKey r" if "m \<in> set (deduped c)" for m
    using assms(2) that by metis
  then have "\<not> sameIdentity m r" if "m \<in> set (deduped c)" for m
    using that sameIdentity_key [of m r] by blast
  then have e: "filter (\<lambda>m. sameIdentity m r) (deduped c) = []"
    by (simp add: filter_empty_conv)
  have "mergeModule r' (mergeModule r c) = mergeModule r c"
    using assms(2) sameIdentity_key [OF assms(3)] by (simp add: mergeModule_def)
  then show ?thesis using assms(2) e by (simp add: mergeModule_def sameIdentity_def)
qed

lemma mergeModule_collision:
  assumes "dedupeKey r \<in> seen c" and "sameIdentity r' r"
  shows "mergeModule r' (mergeModule r c) = c"
  using assms sameIdentity_key [OF assms(2)] by (simp add: mergeModule_def)

lemma mergeModule_one:
  assumes "storeInv c" and "sameIdentity r' r"
    and "\<forall>m\<in>set (deduped c). dedupeKey m = dedupeKey r \<longrightarrow> sameIdentity m r"
  shows "length (filter (\<lambda>m. sameIdentity m r) (deduped (mergeModule r' (mergeModule r c)))) = 1"
proof (cases "dedupeKey r \<in> seen c")
  case False
  then show ?thesis using mergeModule_new [OF assms(1) False assms(2)] by simp
next
  case True
  then obtain x where x: "x \<in> set (deduped c)" "dedupeKey x = dedupeKey r"
    using assms(1) by (auto simp: storeInv_def)
  have "sameIdentity m r \<longleftrightarrow> dedupeKey m = dedupeKey x" if "m \<in> set (deduped c)" for m
    using assms(3) that x(2) sameIdentity_key [of m r] by auto
  then have "filter (\<lambda>m. sameIdentity m r) (deduped c)
               = filter (\<lambda>m. dedupeKey m = dedupeKey x) (deduped c)"
    by (intro filter_cong refl)
  moreover have "length (filter (\<lambda>m. dedupeKey m = dedupeKey x) (deduped c)) = 1"
    using distinct_key_count [of dedupeKey, OF _ x(1)] assms(1) by (simp add: storeInv_def)
  ultimately show ?thesis
    using mergeModule_collision [OF True assms(2)] by simp
qed

lemma mergeModule_one_barFree:
  assumes "storeInv c" and "sameIdentity r' r" and "barFree r" and "\<forall>m\<in>set (deduped c). barFree m"
  shows "length (filter (\<lambda>m. sameIdentity m r) (deduped (mergeModule r' (mergeModule r c)))) = 1"
proof (rule mergeModule_one [OF assms(1,2)])
  show "\<forall>m\<in>set (deduped c). dedupeKey m = dedupeKey r \<longrightarrow> sameIdentity m r"
    using assms(3,4) by (simp add: key_identity)
qed

text \<open>The renderer's store.\<close>

lemma derive_identity [simp]:
  "name (derive d m) = name m" "price (derive d m) = price m" "sellerName (derive d m) = sellerName m"
  by (simp_all add: derive_def module.defs)

lemma appendModule_known:
  "list_ex (\<lambda>s. sameIdentity s r) store \<Longrightarrow> sameIdentity r' r \<Longrightarrow> appendModule d r' store = store"
  by (auto simp: appendModule_def sameIdentity_def list_ex_iff)

lemma appendModule_twice:
  assumes "sameIdentity r' r"
  shows "appendModule d r' (appendModule d r store) = appendModule d r store"
proof (cases "name r = [] \<or> list_ex (\<lambda>s. sameIdentity s r) store")
  case True
  then show ?thesis using assms
    by (auto simp: appendModule_def sameIdentity_def list_ex_iff)
next
  case False
  then have "appendModule d r store = store @ [derive d r]"
    by (auto simp: appendModule_def sameIdentity_def list_ex_iff)
  moreover have "list_ex (\<lambda>s. sameIdentity s r) (store @ [derive d r])"
    by (simp add: sameIdentity_def list_ex_iff)
  ultimately show ?thesis using appendModule_known [OF _ assms] by simp
qed

lemma appendModule_first_seen:
  assumes "sameIdentity r' r" and "name r \<noteq> []" and "\<not> list_ex (\<lambda>s. sameIdentity s r) store"
  shows "filter (\<lambda>s. sameIdentity s r) (appendModule d r' (appendModule d r store)) = [derive d r]"
proof -
  have "appendModule d r store = store @ [derive d r]"
    using assms(2,3) by (auto simp: appendModule_def sameIdentity_def list_ex_iff)
  moreover have "filter (\<lambda>s. sameIdentity s r) store = []"
    using assms(3) by (auto simp: filter_empty_conv list_ex_iff)
  ultimately show ?thesis
    unfolding appendModule_twice [OF assms(1)] by (simp add: sameIdentity_def)
qed

text \<open>
  Claim C6, as amended. Let \<open>r'\<close> have the name, price and seller name of \<open>r\<close>. In
  the controller's store, reached from the empty store by insertions: if \<open>r\<close> is stored,
  inserting \<open>r'\<close> changes nothing; inserting \<open>r\<close> and then \<open>r'\<close> gives the store that
  inserting \<open>r\<close> alone gives. When the joined key of \<open>r\<close> was not seen before, exactly
  one record with the name, price and seller name of \<open>r\<close> is stored afterwards, and it
  is \<open>r\<close>, the record seen first. When every stored record with the joined key of \<open>r\<close>
  has the name, price and seller name of \<open>r\<close>, exactly one record with this identity is
  stored afterwards; this is so when no name and no price, of \<open>r\<close> or of a stored
  record, holds the separator \<^verbatim>\<open>|\<close>. When the joined key was seen before although no
  record with this identity is stored, the two insertions store nothing. In the
  renderer's store of \<^verbatim>\<open>appendModules\<close>: if a record with this identity is stored,
  inserting \<open>q'\<close> changes nothing; inserting \<open>q\<close> and then \<open>q'\<close> gives the store that
  inserting \<open>q\<close> alone gives; when no such record was stored before and the name is not
  empty, exactly one record with this identity is stored afterwards, the one derived
  from \<open>q\<close>; a record with an empty name is never stored.
\<close>

theorem insertion_idempotent:
  assumes "sameIdentity r' r" and "storeInv c"
  shows "(r \<in> set (deduped c) \<longrightarrow> mergeModule r' c = c)
       \<and> mergeModule r' (mergeModule r c) = mergeModule r c
       \<and> storeInv (mergeModule r c)
       \<and> (dedupeKey r \<notin> seen c \<longrightarrow>
            filter (\<lambda>m. sameIdentity m r) (deduped (mergeModule r' (mergeModule r c))) = [r])
       \<and> ((\<forall>m\<in>set (deduped c). dedupeKey m = dedupeKey r \<longrightarrow> sameIdentity m r) \<longrightarrow>
            length (filter (\<lambda>m. sameIdentity m r) (deduped (mergeModule r' (mergeModule r c)))) = 1)
       \<and> (barFree r \<and> (\<forall>m\<in>set (deduped c). barFree m) \<longrightarrow>
            length (filter (\<lambda>m. sameIdentity m r) (deduped (mergeModule r' (mergeModule r c)))) = 1)
       \<and> (dedupeKey r \<in> seen c \<and> \<not> list_ex (\<lambda>m. sameIdentity m r) (deduped c) \<longrightarrow>
            filter (\<lambda>m. sameIdentity m r) (deduped (mergeModule r' (mergeModule r c))) = [])
       \<and> (list_ex (\<lambda>s. sameIdentity s q) store \<and> sameIdentity q' q \<longrightarrow> appendModule d q' store = store)
       \<and> (sameIdentity q' q \<longrightarrow> appendModule d q' (appendModule d q store) = appendModule d q store)
       \<and> (sameIdentity q' q \<and> name q \<noteq> [] \<and> \<not> list_ex (\<lambda>s. sameIdentity s q) store \<longrightarrow>
            filter (\<lambda>s. sameIdentity s q) (appendModule d q' (appendModule d q store)) = [derive d q])
       \<and> (name q = [] \<longrightarrow> appendModule d q store = store)"
proof -
  have a: "r \<in> set (deduped c) \<longrightarrow> mergeModule r' c = c"
    using mergeModule_known [OF assms(2) _ sameIdentity_key [OF assms(1)]] by blast
  have b: "mergeModule r' (mergeModule r c) = mergeModule r c"
    by (rule mergeModule_twice(1) [OF assms(2,1)])
  have i: "storeInv (mergeModule r c)"
    by (rule storeInv_mergeModule [OF assms(2)])
  have n: "dedupeKey r \<notin> seen c \<longrightarrow>
            filter (\<lambda>m. sameIdentity m r) (deduped (mergeModule r' (mergeModule r c))) = [r]"
    using mergeModule_new [OF assms(2) _ assms(1)] by blast
  have o: "(\<forall>m\<in>set (deduped c). dedupeKey m = dedupeKey r \<longrightarrow> sameIdentity m r) \<longrightarrow>
            length (filter (\<lambda>m. sameIdentity m r) (deduped (mergeModule r' (mergeModule r c)))) = 1"
    using mergeModule_one [OF assms(2,1)] by blast
  have o': "barFree r \<and> (\<forall>m\<in>set (deduped c). barFree m) \<longrightarrow>
            length (filter (\<lambda>m. sameIdentity m r) (deduped (mergeModule r' (mergeModule r c)))) = 1"
    using mergeModule_one_barFree [OF assms(2,1)] by blast
  have z: "dedupeKey r \<in> seen c \<and> \<not> list_ex (\<lambda>m. sameIdentity m r) (deduped c) \<longrightarrow>
            filter (\<lambda>m. sameIdentity m r) (deduped (mergeModule r' (mergeModule r c))) = []"
    using mergeModule_collision [OF _ assms(1), of c]
    by (auto simp: filter_empty_conv list_ex_iff)
  have e: "list_ex (\<lambda>s. sameIdentity s q) store \<and> sameIdentity q' q \<longrightarrow> appendModule d q' store = store"
    using appendModule_known [of q store q' d] by blast
  have f: "sameIdentity q' q \<longrightarrow> appendModule d q' (appendModule d q store) = appendModule d q store"
    using appendModule_twice [of q' q d store] by blast
  have g: "sameIdentity q' q \<and> name q \<noteq> [] \<and> \<not> list_ex (\<lambda>s. sameIdentity s q) store \<longrightarrow>
            filter (\<lambda>s. sameIdentity s q) (appendModule d q' (appendModule d q store)) = [derive d q]"
    using appendModule_first_seen [of q' q store d] by blast
  have h: "name q = [] \<longrightarrow> appendModule d q store = store"
    by (simp add: appendModule_def)
  from a b i n o o' z e f g h show ?thesis by blast
qed

theorem insertion_idempotent_witness:
  "mergeModule ((listing ''a'' ''10'' ''s1'')\<lparr>sellerStatus := ''Offline''\<rparr>)
       (mergeModule (listing ''a'' ''10'' ''s1'') (mergeModule (listing ''b'' ''20'' ''s2'') initial))
     = mergeModule (listing ''a'' ''10'' ''s1'') (mergeModule (listing ''b'' ''20'' ''s2'') initial)
   \<and> deduped (mergeModule (listing ''a'' ''10'' ''s1'') (mergeModule (listing ''b'' ''20'' ''s2'') initial))
       = [listing ''b'' ''20'' ''s2'', listing ''a'' ''10'' ''s1'']
   \<and> filter (\<lambda>m. sameIdentity m (listing ''a'' ''10'' ''s1''))
       (deduped (mergeModule ((listing ''a'' ''10'' ''s1'')\<lparr>sellerStatus := ''Offline''\<rparr>)
          (mergeModule (listing ''a'' ''10'' ''s1'') (mergeModule (listing ''b'' ''20'' ''s2'') initial))))
       = [listing ''a'' ''10'' ''s1'']
   \<and> appendModule noStatFields ((listing ''a'' ''10'' ''s1'')\<lparr>sellerStatus := ''Offline''\<rparr>)
        (appendModule noStatFields (listing ''a'' ''10'' ''s1'') [])
     = [derive noStatFields (listing ''a'' ''10'' ''s1'')]"
proof -
  let ?c = "mergeModule (listing ''b'' ''20'' ''s2'') initial :: module ctl"
  let ?r = "listing ''a'' ''10'' ''s1''"
  let ?r' = "(listing ''a'' ''10'' ''s1'')\<lparr>sellerStatus := ''Offline''\<rparr>"
  have s: "sameIdentity ?r' ?r"
    by (simp add: sameIdentity_def listing_def)
  have i: "storeInv ?c"
    by (rule storeInv_mergeModule [OF storeInv_initial])
  have k: "dedupeKey ?r \<notin> seen ?c"
    by (simp add: mergeModule_def initial_def dedupeKey_def listing_def)
  note t = insertion_idempotent [OF s i, where q = ?r and q' = ?r' and store = "[]" and d = noStatFields]
  have b: "mergeModule ?r' (mergeModule ?r ?c) = mergeModule ?r ?c"
    using t by blast
  have n: "filter (\<lambda>m. sameIdentity m ?r) (deduped (mergeModule ?r' (mergeModule ?r ?c))) = [?r]"
    using t k by blast
  have f: "appendModule noStatFields ?r' (appendModule noStatFields ?r [])
             = appendModule noStatFields ?r []"
    using t s by blast
  have a: "appendModule noStatFields ?r [] = [derive noStatFields ?r]"
    by (simp add: appendModule_def listing_def)
  have d: "deduped (mergeModule ?r ?c) = [listing ''b'' ''20'' ''s2'', ?r]"
    by (simp add: mergeModule_def initial_def dedupeKey_def listing_def)
  from b n f a d show ?thesis by (simp only: simp_thms)
qed

text \<open>
  Against claim C6 as stated. A listing whose name is empty, as the parse script
  returns it when the markup has no name, is inserted twice into the empty store of
  \<^verbatim>\<open>appendModules\<close>: no record is stored, not one. In the controller's store that holds
  the listing named \<^verbatim>\<open>a|b\<close> with the price \<^verbatim>\<open>c\<close>, the listing named \<^verbatim>\<open>a\<close> with
  the price \<^verbatim>\<open>b|c\<close> of the same seller is inserted twice: the joined keys are the
  same, the store stays as it is and holds no record with the name, price and seller
  name of the inserted one.
\<close>

theorem insertion_idempotent_counterexample:
  "appendModules noStatFields [listing [] ''10'' ''s1'', listing [] ''10'' ''s1''] [] = []
   \<and> length (appendModules noStatFields [listing [] ''10'' ''s1'', listing [] ''10'' ''s1''] []) \<noteq> 1
   \<and> \<not> sameIdentity (listing ''a|b'' ''c'' ''s'') (listing ''a'' ''b|c'' ''s'')
   \<and> deduped (mergeModules [listing ''a'' ''b|c'' ''s'', listing ''a'' ''b|c'' ''s'']
        (mergeModule (listing ''a|b'' ''c'' ''s'') initial)) = [listing ''a|b'' ''c'' ''s'']
   \<and> length (filter (\<lambda>m. sameIdentity m (listing ''a'' ''b|c'' ''s''))
        (deduped (mergeModules [listing ''a'' ''b|c'' ''s'', listing ''a'' ''b|c'' ''s'']
           (mergeModule (listing ''a|b'' ''c'' ''s'') initial)))) \<noteq> 1"
  by (simp add: appendModule_def listing_def mergeModule_def initial_def dedupeKey_def
      sameIdentity_def)

section \<open>Properties of the profile manager\<close>

text \<open>Two states have the same JSON text exactly when they agree once every NaN is read as null.\<close>

lemma jsonNumber_nanToNull [simp]: "jsonNumber (nanToNull b) = jsonNumber b"
  by (cases b rule: jsonNumber.cases) simp_all





lemma jsonRanges_roundTrip [simp]: "jsonRanges (roundTripRanges rs) = jsonRanges rs"
  by (simp add: jsonRanges_def roundTripRanges_def jsonRange_def)

lemma stringifyState_roundTrip [simp]: "stringifyState (jsonRoundTrip st) = stringifyState st"
  by (cases "triggerFilters st") (simp_all add: stringifyState_def jsonRoundTrip_def)





lemma getState_profile_fields [simp]:
  "getState (u\<lparr>profiles := p\<rparr>) = getState u"
  "getState (u\<lparr>currentProfileState := s\<rparr>) = getState u"
  "getState (u\<lparr>currentProfileName := n\<rparr>) = getState u"
  "getState (u\<lparr>selectedProfile := q\<rparr>) = getState u"
  "getState (u\<lparr>saveDisabled := b\<rparr>) = getState u"
  by (simp_all add: getState_def)

lemma getState_page_fields [simp]:
  "getState (u\<lparr>activeCategories := cs\<rparr>) = getState u"
  "getState (u\<lparr>selectedSockets := ss\<rparr>) = getState u"
  "getState (u\<lparr>selectedPlatforms := ps\<rparr>) = getState u"
  by (simp_all add: getState_def)

lemma updateButtons_fields [simp]:
  "getState (updateButtons u) = getState u"
  "selectedProfile (updateButtons u) = selectedProfile u"
  "currentProfileName (updateButtons u) = currentProfileName u"
  "currentProfileState (updateButtons u) = currentProfileState u"
  "profiles (updateButtons u) = profiles u"
  by (simp_all add: updateButtons_def)





text \<open>A name that the test of line 1918 takes for an existing profile is refused.\<close>

lemma saveClick_refused:
  "selectedProfile u = [] \<Longrightarrow> truthyProperty (profiles u) (trim nm) \<Longrightarrow>
   saveClick confirmed (Some nm) u = u"
  by (simp add: saveClick_def Let_def)

lemma inherited_name_refused:
  "selectedProfile u = [] \<Longrightarrow> saveClick confirmed (Some ''constructor'') u = u"
  by (rule saveClick_refused) (simp_all add: truthyProperty_def inheritedNames_def trim_def is_space_def)

text \<open>
  Selecting a stored profile ends in the exception of \<^verbatim>\<open>applyState\<close>: the filter
  variables have been assigned, and the save control is left as it was.
\<close>

lemma selectProfile_keeps_control:
  "nm \<noteq> [] \<Longrightarrow> saveDisabled (selectProfile nm u) = saveDisabled u"
  by (simp add: selectProfile_def applyState_def split: option.splits)








end
